theory Spec2Isabelle
  imports Complex_Main "HOL-Library.Word"
begin

section \<open>The map fusion engine of the fiducials repository (Arc.c, Map.c)\<close>

text \<open>
  The C sources keep \<^emph>\<open>Tag\<close>, \<^emph>\<open>Arc\<close> and \<^emph>\<open>Map\<close> objects on the heap and link them by
  pointers (an Arc points to its two Tags, a Tag lists its Arcs, the Map lists both).
  The embedding keeps that shape: a \<open>Map__Struct\<close> carries two stores, \<open>Map_tags\<close> and
  \<open>Map_arcs\<close>; a pointer is an index into its store, \<open>None\<close> is the null pointer, and
  reading through a null or dangling pointer is the error \<open>Bad_Pointer\<close>. A failed
  \<open>assert\<close> is the error \<open>Assert_Failed\<close>. Every operation that mutates the map takes
  the map and returns the new one.

  \<open>Unsigned\<close> is a 32-bit word. \<open>Double\<close> is idealised as \<open>real\<close>: rounding and NaN are
  outside the model. Field \<open>f\<close> of the C struct \<open>Tag__Struct\<close> is \<open>Tag_f\<close>, and likewise
  for \<open>Arc_f\<close> and \<open>Map_f\<close>. The announce callback (an output to the host program) and
  the file parser are not part of the model: \<open>Arc__read\<close> starts from the attribute
  values of one parsed element.
\<close>

type_synonym Unsigned = "32 word"
type_synonym Tag = nat
type_synonym Arc = nat

datatype error = Assert_Failed | Bad_Pointer | Out_Of_Bounds

definition bindE :: "error + 'a \<Rightarrow> ('a \<Rightarrow> error + 'b) \<Rightarrow> error + 'b" where
  "bindE r f = (case r of Inl e \<Rightarrow> Inl e | Inr x \<Rightarrow> f x)"

record Tag__Struct =
  Tag_arcs :: "Arc list"
  Tag_distance_per_pixel :: real
  Tag_hop_count :: Unsigned
  Tag_id :: Unsigned
  Tag_twist :: real
  Tag_visit :: Unsigned
  Tag_x :: real
  Tag_y :: real

record Arc__Struct =
  Arc_distance :: real
  Arc_from_tag :: "Tag option"
  Arc_from_twist :: real
  Arc_goodness :: real
  Arc_in_tree :: bool
  Arc_to_tag :: "Tag option"
  Arc_to_twist :: real
  Arc_visit :: Unsigned

record Tag_Height__Struct =
  Tag_Height_first_id :: Unsigned
  Tag_Height_last_id :: Unsigned
  Tag_Height_distance_per_pixel :: real

record Map__Struct =
  Map_tags :: "Tag__Struct list"
  Map_arcs :: "Arc__Struct list"
  Map_all_arcs :: "Arc list"
  Map_all_tags :: "Tag list"
  Map_arcs_table :: "Arc list"
  Map_is_changed :: bool
  Map_pending_arcs :: "Arc list"
  Map_tag_heights :: "Tag_Height__Struct list"
  Map_tags_table :: "(Unsigned \<times> Tag) list"
  Map_temporary_arc :: Arc__Struct
  Map_visit :: Unsigned

record Camera_Tag__Struct =
  Camera_Tag_tag :: Tag
  Camera_Tag_twist :: real
  Camera_Tag_x :: real
  Camera_Tag_y :: real

record CV_Image__Struct =
  CV_Image_height :: int
  CV_Image_width :: int

text \<open>The attributes of one \<open><Arc .../>\<close> element, as the parser hands them to \<open>Arc__read\<close>.\<close>

record Arc_Element =
  From_Tag_Id :: Unsigned
  From_Twist :: real
  Distance :: real
  To_Tag_Id :: Unsigned
  To_Twist :: real
  Goodness :: real
  In_Tree :: bool

subsection \<open>Reading and writing the two stores\<close>

definition Tag_at :: "Map__Struct \<Rightarrow> Tag \<Rightarrow> error + Tag__Struct" where
  "Tag_at m p = (if p < length (Map_tags m) then Inr (Map_tags m ! p) else Inl Bad_Pointer)"

definition Arc_at :: "Map__Struct \<Rightarrow> Arc \<Rightarrow> error + Arc__Struct" where
  "Arc_at m p = (if p < length (Map_arcs m) then Inr (Map_arcs m ! p) else Inl Bad_Pointer)"

definition Tag_ref :: "Map__Struct \<Rightarrow> Tag option \<Rightarrow> error + Tag__Struct" where
  "Tag_ref m q = (case q of None \<Rightarrow> Inl Bad_Pointer | Some p \<Rightarrow> Tag_at m p)"

definition Tag_ptr :: "Map__Struct \<Rightarrow> Tag option \<Rightarrow> error + Tag" where
  "Tag_ptr m q =
     (case q of
        None \<Rightarrow> Inl Bad_Pointer
      | Some p \<Rightarrow> if p < length (Map_tags m) then Inr p else Inl Bad_Pointer)"

definition store_Tag :: "Map__Struct \<Rightarrow> Tag \<Rightarrow> Tag__Struct \<Rightarrow> Map__Struct" where
  "store_Tag m p t = m\<lparr>Map_tags := (Map_tags m)[p := t]\<rparr>"

definition store_Arc :: "Map__Struct \<Rightarrow> Arc \<Rightarrow> Arc__Struct \<Rightarrow> Map__Struct" where
  "store_Arc m p a = m\<lparr>Map_arcs := (Map_arcs m)[p := a]\<rparr>"

subsection \<open>Library routines that are not in Arc.c or Map.c\<close>

text \<open>
  Modelled from the spec: \<open>Unsigned__compare\<close>, \<open>Double__compare\<close> and
  \<open>Unsigned__minimum\<close> (Unsigned.c and Double.c are not among the sources): a compare
  routine returns -1, 0 or 1.
\<close>

definition Unsigned__compare :: "'a::linorder \<Rightarrow> 'a \<Rightarrow> int" where
  "Unsigned__compare a b = (if a < b then - 1 else if a = b then 0 else 1)"

definition Double__compare :: "real \<Rightarrow> real \<Rightarrow> int" where
  "Double__compare a b = (if a < b then - 1 else if a = b then 0 else 1)"

definition Unsigned__minimum :: "Unsigned \<Rightarrow> Unsigned \<Rightarrow> Unsigned" where
  "Unsigned__minimum a b = (if a < b then a else b)"

text \<open>
  Modelled from the spec: \<open>Unsigned__hash\<close>, \<open>Tag__compare\<close> and \<open>Tag__hash\<close> (Tag.c is
  not among the sources). The spec orders markers by id and bases every hash on the id.
\<close>

definition Unsigned__hash :: "Unsigned \<Rightarrow> Unsigned" where
  "Unsigned__hash u = u"

definition Tag__compare :: "Tag__Struct \<Rightarrow> Tag__Struct \<Rightarrow> int" where
  "Tag__compare tag1 tag2 = Unsigned__compare (Tag_id tag1) (Tag_id tag2)"

definition Tag__hash :: "Tag__Struct \<Rightarrow> Unsigned" where
  "Tag__hash tag = Unsigned__hash (Tag_id tag)"

text \<open>
  Modelled from the spec: \<open>Tag__arc_append\<close> (Tag.c): add the Arc to the marker's incident
  edges, rejecting duplicates.
\<close>

definition Tag__arc_append :: "Tag__Struct \<Rightarrow> Arc \<Rightarrow> Tag__Struct" where
  "Tag__arc_append tag arc =
     (if arc \<in> set (Tag_arcs tag) then tag else tag\<lparr>Tag_arcs := Tag_arcs tag @ [arc]\<rparr>)"

text \<open>
  Modelled from the spec: the numeric helpers of Double.c. \<open>Double__angle_normalize\<close>
  shifts an angle into the interval from \<open>-pi\<close> (excluded) to \<open>pi\<close> (included).
\<close>

definition Double__arc_tangent2 :: "real \<Rightarrow> real \<Rightarrow> real" where
  "Double__arc_tangent2 y x =
     (if 0 < x then arctan (y / x)
      else if x < 0 \<and> 0 \<le> y then arctan (y / x) + pi
      else if x < 0 then arctan (y / x) - pi
      else if 0 < y then pi / 2
      else if y < 0 then - (pi / 2)
      else 0)"

definition Double__angle_normalize :: "real \<Rightarrow> real" where
  "Double__angle_normalize angle = angle - 2 * pi * of_int \<lceil>(angle - pi) / (2 * pi)\<rceil>"

text \<open>
  Modelled from the spec: \<open>List__sort\<close> (List.c): the list ordered by the compare
  routine, here by insertion. A compare routine that reads through a bad pointer stops
  the sort with that error.
\<close>

fun List__insert :: "('a \<Rightarrow> 'a \<Rightarrow> error + int) \<Rightarrow> 'a \<Rightarrow> 'a list \<Rightarrow> error + 'a list" where
  "List__insert cmp x [] = Inr [x]"
| "List__insert cmp x (y # ys) =
     (case cmp x y of
        Inl e \<Rightarrow> Inl e
      | Inr c \<Rightarrow>
          if c \<le> 0 then Inr (x # y # ys)
          else (case List__insert cmp x ys of Inl e \<Rightarrow> Inl e | Inr zs \<Rightarrow> Inr (y # zs)))"

fun List__sort :: "('a \<Rightarrow> 'a \<Rightarrow> error + int) \<Rightarrow> 'a list \<Rightarrow> error + 'a list" where
  "List__sort cmp [] = Inr []"
| "List__sort cmp (x # xs) =
     (case List__sort cmp xs of Inl e \<Rightarrow> Inl e | Inr ys \<Rightarrow> List__insert cmp x ys)"

text \<open>
  Modelled from the spec: \<open>Table__lookup\<close> (Table.c), the Edge Index: the stored key
  that the table's equality routine accepts, if there is one.
\<close>

fun Table__lookup :: "('k \<Rightarrow> error + bool) \<Rightarrow> 'k list \<Rightarrow> error + 'k option" where
  "Table__lookup eq [] = Inr None"
| "Table__lookup eq (k # ks) =
     (case eq k of
        Inl e \<Rightarrow> Inl e
      | Inr b \<Rightarrow> if b then Inr (Some k) else Table__lookup eq ks)"

subsection \<open>Arc.c\<close>

definition Arc__compare ::
    "Map__Struct \<Rightarrow> Arc__Struct \<Rightarrow> Map__Struct \<Rightarrow> Arc__Struct \<Rightarrow> error + int" where
  "Arc__compare m1 arc1 m2 arc2 =
     bindE (Tag_ref m1 (Arc_from_tag arc1)) (\<lambda>from1.
     bindE (Tag_ref m2 (Arc_from_tag arc2)) (\<lambda>from2.
       let result = Tag__compare from1 from2 in
       if result = 0 then
         bindE (Tag_ref m1 (Arc_to_tag arc1)) (\<lambda>to1.
         bindE (Tag_ref m2 (Arc_to_tag arc2)) (\<lambda>to2.
           Inr (Tag__compare to1 to2)))
       else Inr result))"

definition Arc__equal :: "Map__Struct \<Rightarrow> Arc__Struct \<Rightarrow> Arc__Struct \<Rightarrow> error + bool" where
  "Arc__equal m arc1 arc2 = bindE (Arc__compare m arc1 m arc2) (\<lambda>c. Inr (c = 0))"

definition Arc__hash :: "Map__Struct \<Rightarrow> Arc__Struct \<Rightarrow> error + Unsigned" where
  "Arc__hash m arc =
     bindE (Tag_ref m (Arc_from_tag arc)) (\<lambda>from_tag.
     bindE (Tag_ref m (Arc_to_tag arc)) (\<lambda>to_tag.
       Inr (Tag__hash from_tag + Tag__hash to_tag)))"

definition Arc__new :: Arc__Struct where
  "Arc__new =
     \<lparr>Arc_distance = 0, Arc_from_tag = None, Arc_from_twist = 0, Arc_goodness = 123456789,
      Arc_in_tree = False, Arc_to_tag = None, Arc_to_twist = 0, Arc_visit = 0\<rparr>"

definition Map__arc_append :: "Map__Struct \<Rightarrow> Arc \<Rightarrow> Map__Struct" where
  "Map__arc_append m arc = m\<lparr>Map_all_arcs := Map_all_arcs m @ [arc], Map_is_changed := True\<rparr>"

text \<open>The second half of \<open>Arc__create\<close>, after the endpoints are in order: create and
  load the Arc, append it to both Tags and to the Map.\<close>

definition Arc__create_load ::
    "Map__Struct \<Rightarrow> Tag \<Rightarrow> real \<Rightarrow> real \<Rightarrow> Tag \<Rightarrow> real \<Rightarrow> real \<Rightarrow> Map__Struct \<times> Arc" where
  "Arc__create_load m from_tag from_twist distance to_tag to_twist goodness =
     (let arc = length (Map_arcs m);
          m1 = m\<lparr>Map_arcs := Map_arcs m @
                 [Arc__new\<lparr>Arc_distance := distance, Arc_from_tag := Some from_tag,
                    Arc_from_twist := from_twist, Arc_goodness := goodness,
                    Arc_to_tag := Some to_tag, Arc_to_twist := to_twist\<rparr>]\<rparr>;
          m2 = store_Tag m1 from_tag (Tag__arc_append (Map_tags m1 ! from_tag) arc);
          m3 = store_Tag m2 to_tag (Tag__arc_append (Map_tags m2 ! to_tag) arc)
      in (Map__arc_append m3 arc, arc))"

definition Arc__create ::
    "Map__Struct \<Rightarrow> Tag \<Rightarrow> real \<Rightarrow> real \<Rightarrow> Tag \<Rightarrow> real \<Rightarrow> real \<Rightarrow> error + Map__Struct \<times> Arc" where
  "Arc__create m from_tag from_twist distance to_tag to_twist goodness =
     bindE (Tag_at m from_tag) (\<lambda>from_struct.
     bindE (Tag_at m to_tag) (\<lambda>to_struct.
       if Tag_id from_struct > Tag_id to_struct
       then Inr (Arc__create_load m to_tag to_twist distance from_tag from_twist goodness)
       else Inr (Arc__create_load m from_tag from_twist distance to_tag to_twist goodness)))"

definition Arc__distance_compare :: "Map__Struct \<Rightarrow> Arc \<Rightarrow> Arc \<Rightarrow> error + int" where
  "Arc__distance_compare m arc1 arc2 =
     bindE (Arc_at m arc1) (\<lambda>a1.
     bindE (Arc_at m arc2) (\<lambda>a2.
       let result = - Double__compare (Arc_distance a1) (Arc_distance a2) in
       if result = 0 then
         bindE (Tag_ref m (Arc_from_tag a1)) (\<lambda>from1.
         bindE (Tag_ref m (Arc_to_tag a1)) (\<lambda>to1.
         bindE (Tag_ref m (Arc_from_tag a2)) (\<lambda>from2.
         bindE (Tag_ref m (Arc_to_tag a2)) (\<lambda>to2.
           let arc1_lowest_hop_count =
                 Unsigned__minimum (Tag_hop_count from1) (Tag_hop_count to1);
               arc2_lowest_hop_count =
                 Unsigned__minimum (Tag_hop_count from2) (Tag_hop_count to2)
           in Inr (- Unsigned__compare arc1_lowest_hop_count arc2_lowest_hop_count)))))
       else Inr result))"

definition Arc__update ::
    "Map__Struct \<Rightarrow> Arc \<Rightarrow> real \<Rightarrow> real \<Rightarrow> real \<Rightarrow> real \<Rightarrow> error + Map__Struct" where
  "Arc__update m arc from_twist distance to_twist goodness =
     bindE (Arc_at m arc) (\<lambda>a.
     bindE (Tag_ref m (Arc_from_tag a)) (\<lambda>from_tag.
     bindE (Tag_ref m (Arc_to_tag a)) (\<lambda>to_tag.
       if \<not> Tag_id from_tag < Tag_id to_tag then Inl Assert_Failed
       else Inr (store_Arc m arc
              (a\<lparr>Arc_from_twist := from_twist, Arc_distance := distance,
                 Arc_goodness := goodness, Arc_to_twist := to_twist\<rparr>)))))"

subsection \<open>Map.c\<close>

definition Map__arc_lookup :: "Map__Struct \<Rightarrow> Tag \<Rightarrow> Tag \<Rightarrow> error + Map__Struct \<times> Arc" where
  "Map__arc_lookup m from_tag0 to_tag0 =
     bindE (Tag_at m from_tag0) (\<lambda>from_struct.
     bindE (Tag_at m to_tag0) (\<lambda>to_struct.
       let swap = (Tag_id from_struct > Tag_id to_struct);
           from_tag = (if swap then to_tag0 else from_tag0);
           to_tag = (if swap then from_tag0 else to_tag0);
           temporary_arc =
             (Map_temporary_arc m)\<lparr>Arc_from_tag := Some from_tag, Arc_to_tag := Some to_tag\<rparr>;
           m1 = m\<lparr>Map_temporary_arc := temporary_arc\<rparr>
       in bindE (Table__lookup
                   (\<lambda>k. bindE (Arc_at m1 k) (\<lambda>key. Arc__equal m1 key temporary_arc))
                   (Map_arcs_table m1)) (\<lambda>found.
            case found of
              Some arc \<Rightarrow> Inr (m1, arc)
            | None \<Rightarrow>
                bindE (Arc__create m1 from_tag 0 0 to_tag 0 123456789) (\<lambda>(m2, arc).
                  Inr (m2\<lparr>Map_arcs_table := Map_arcs_table m2 @ [arc]\<rparr>, arc)))))"

definition Map__arc_update ::
    "Map__Struct \<Rightarrow> Camera_Tag__Struct \<Rightarrow> Camera_Tag__Struct \<Rightarrow> CV_Image__Struct
       \<Rightarrow> error + Map__Struct \<times> Unsigned" where
  "Map__arc_update m camera_from camera_to cv_image =
     (let height = real_of_int (CV_Image_height cv_image);
          width = real_of_int (CV_Image_width cv_image);
          half_width = width / 2;
          half_height = height / 2;
          pi_literal = 3.14159265358979323846264;
          from_tag = Camera_Tag_tag camera_from;
          camera_from_twist = Camera_Tag_twist camera_from;
          camera_from_x = Camera_Tag_x camera_from;
          camera_from_y = Camera_Tag_y camera_from;
          to_tag = Camera_Tag_tag camera_to;
          camera_to_twist = Camera_Tag_twist camera_to;
          camera_to_x = Camera_Tag_x camera_to;
          camera_to_y = Camera_Tag_y camera_to
      in bindE (Map__arc_lookup m from_tag to_tag) (\<lambda>(m1, arc).
         let camera_from_dx = camera_from_x - half_width;
             camera_from_dy = camera_from_y - half_height;
             camera_from_polar_distance =
               sqrt (camera_from_dx * camera_from_dx + camera_from_dy * camera_from_dy);
             camera_from_polar_angle = Double__arc_tangent2 camera_from_dy camera_from_dx;
             camera_to_dx = camera_to_x - half_width;
             camera_to_dy = camera_to_y - half_height;
             camera_to_polar_distance =
               sqrt (camera_to_dx * camera_to_dx + camera_to_dy * camera_to_dy);
             camera_to_polar_angle = Double__arc_tangent2 camera_to_dy camera_to_dx;
             goodness = \<bar>camera_from_polar_distance - camera_to_polar_distance\<bar>
         in bindE (Arc_at m1 arc) (\<lambda>a.
            if goodness < Arc_goodness a then
              bindE (Tag_at m1 from_tag) (\<lambda>from_struct.
              bindE (Tag_at m1 to_tag) (\<lambda>to_struct.
                let from_distance_per_pixel = Tag_distance_per_pixel from_struct;
                    to_distance_per_pixel = Tag_distance_per_pixel to_struct;
                    from_floor_x = from_distance_per_pixel *
                      camera_from_polar_distance * cos camera_from_polar_angle;
                    from_floor_y = from_distance_per_pixel *
                      camera_from_polar_distance * sin camera_from_polar_angle;
                    to_floor_x = to_distance_per_pixel *
                      camera_to_polar_distance * cos camera_to_polar_angle;
                    to_floor_y = to_distance_per_pixel *
                      camera_to_polar_distance * sin camera_to_polar_angle;
                    floor_dx = from_floor_x - to_floor_x;
                    floor_dy = from_floor_y - to_floor_y;
                    floor_distance = sqrt (floor_dx * floor_dx + floor_dy * floor_dy);
                    camera_dx = camera_to_x - camera_from_x;
                    camera_dy = camera_to_y - camera_from_y;
                    arc_angle = Double__arc_tangent2 camera_dy camera_dx;
                    from_twist = Double__angle_normalize (camera_from_twist - arc_angle);
                    to_twist =
                      Double__angle_normalize (camera_to_twist + pi_literal - arc_angle)
                in bindE (Arc__update m1 arc from_twist floor_distance to_twist goodness)
                     (\<lambda>m2. Inr (m2, 1))))
            else Inr (m1, 0))))"

fun Map__compare_tags ::
    "Map__Struct \<Rightarrow> Tag list \<Rightarrow> Map__Struct \<Rightarrow> Tag list \<Rightarrow> error + int" where
  "Map__compare_tags m1 [] m2 all_tags2 = Inr 0"
| "Map__compare_tags m1 (tag1 # rest1) m2 [] = Inl Out_Of_Bounds"
| "Map__compare_tags m1 (tag1 # rest1) m2 (tag2 # rest2) =
     (case Tag_at m1 tag1 of
        Inl e \<Rightarrow> Inl e
      | Inr t1 \<Rightarrow>
          (case Tag_at m2 tag2 of
             Inl e \<Rightarrow> Inl e
           | Inr t2 \<Rightarrow>
               if Tag__compare t1 t2 \<noteq> 0 then Inr (Tag__compare t1 t2)
               else Map__compare_tags m1 rest1 m2 rest2))"

fun Map__compare_arcs ::
    "Map__Struct \<Rightarrow> Arc list \<Rightarrow> Map__Struct \<Rightarrow> Arc list \<Rightarrow> error + int" where
  "Map__compare_arcs m1 [] m2 all_arcs2 = Inr 0"
| "Map__compare_arcs m1 (arc1 # rest1) m2 [] = Inl Out_Of_Bounds"
| "Map__compare_arcs m1 (arc1 # rest1) m2 (arc2 # rest2) =
     (case Arc_at m1 arc1 of
        Inl e \<Rightarrow> Inl e
      | Inr a1 \<Rightarrow>
          (case Arc_at m2 arc2 of
             Inl e \<Rightarrow> Inl e
           | Inr a2 \<Rightarrow>
               (case Arc__compare m1 a1 m2 a2 of
                  Inl e \<Rightarrow> Inl e
                | Inr result \<Rightarrow>
                    if result \<noteq> 0 then Inr result
                    else Map__compare_arcs m1 rest1 m2 rest2)))"

text \<open>
  \<open>Map__compare\<close>: the result of the Tag pass is overwritten by the size comparison of
  the Arc lists, as in the source; only a crash of the Tag pass is felt afterwards.
  \<open>List__size\<close> is the length of the list.
\<close>

definition Map__compare :: "Map__Struct \<Rightarrow> Map__Struct \<Rightarrow> error + int" where
  "Map__compare m1 m2 =
     (let all_tags1 = Map_all_tags m1;
          all_tags2 = Map_all_tags m2;
          all_tags1_size = length all_tags1;
          all_tags2_size = length all_tags2;
          result_tags = Unsigned__compare all_tags1_size all_tags2_size
      in bindE (if result_tags = 0 then Map__compare_tags m1 all_tags1 m2 all_tags2
                else Inr result_tags) (\<lambda>discarded.
         let all_arcs1 = Map_all_arcs m1;
             all_arcs2 = Map_all_arcs m2;
             all_arcs1_size = length all_arcs1;
             all_arcs2_size = length all_arcs2;
             result = Unsigned__compare all_arcs1_size all_arcs2_size
         in if result = 0 then Map__compare_arcs m1 all_arcs1 m2 all_arcs2
            else Inr result))"

fun Map__distance_per_pixel_loop :: "Tag_Height__Struct list \<Rightarrow> Unsigned \<Rightarrow> real" where
  "Map__distance_per_pixel_loop [] ident = 0"
| "Map__distance_per_pixel_loop (tag_height # rest) ident =
     (if Tag_Height_first_id tag_height \<le> ident \<and> ident \<le> Tag_Height_last_id tag_height
      then Tag_Height_distance_per_pixel tag_height
      else Map__distance_per_pixel_loop rest ident)"

definition Map__distance_per_pixel :: "Map__Struct \<Rightarrow> Unsigned \<Rightarrow> real" where
  "Map__distance_per_pixel m ident = Map__distance_per_pixel_loop (Map_tag_heights m) ident"

definition Map__new :: Map__Struct where
  "Map__new =
     \<lparr>Map_tags = [], Map_arcs = [], Map_all_arcs = [], Map_all_tags = [],
      Map_arcs_table = [], Map_is_changed = False, Map_pending_arcs = [],
      Map_tag_heights = [], Map_tags_table = [], Map_temporary_arc = Arc__new,
      Map_visit = 0\<rparr>"

text \<open>
  Modelled from the spec: \<open>Tag__create\<close> (Tag.c): a marker is created on first reference
  by id, with its distance per pixel resolved from the height table, no incident edge,
  and pose and traversal scratch at zero.
\<close>

definition Tag__create :: "Unsigned \<Rightarrow> Map__Struct \<Rightarrow> Tag__Struct" where
  "Tag__create ident m =
     \<lparr>Tag_arcs = [], Tag_distance_per_pixel = Map__distance_per_pixel m ident,
      Tag_hop_count = 0, Tag_id = ident, Tag_twist = 0, Tag_visit = 0, Tag_x = 0,
      Tag_y = 0\<rparr>"

definition Map__tag_lookup :: "Map__Struct \<Rightarrow> Unsigned \<Rightarrow> Map__Struct \<times> Tag" where
  "Map__tag_lookup m tag_id =
     (case map_of (Map_tags_table m) tag_id of
        Some tag \<Rightarrow> (m, tag)
      | None \<Rightarrow>
          (let tag = length (Map_tags m)
           in (m\<lparr>Map_tags := Map_tags m @ [Tag__create tag_id m],
                 Map_tags_table := (tag_id, tag) # Map_tags_table m,
                 Map_all_tags := Map_all_tags m @ [tag],
                 Map_is_changed := True\<rparr>, tag)))"

definition Arc__read :: "Map__Struct \<Rightarrow> Arc_Element \<Rightarrow> error + Map__Struct \<times> Arc" where
  "Arc__read m element =
     (let pi_literal = 3.14159265358979323846264;
          radians_to_degrees = pi_literal / 180;
          from_twist = From_Twist element * radians_to_degrees;
          to_twist = To_Twist element * radians_to_degrees
      in case Map__tag_lookup m (From_Tag_Id element) of (m1, from_tag) \<Rightarrow>
         case Map__tag_lookup m1 (To_Tag_Id element) of (m2, to_tag) \<Rightarrow>
           bindE (Arc__create m2 from_tag from_twist (Distance element) to_tag to_twist
                    (Goodness element)) (\<lambda>(m3, arc).
           bindE (Arc_at m3 arc) (\<lambda>a.
             Inr (store_Arc m3 arc (a\<lparr>Arc_in_tree := In_Tree element\<rparr>), arc))))"

text \<open>
  Modelled from the spec: \<open>Tag__update_via_arc\<close> (Tag.c), the pose composition along a
  tree edge: the other endpoint of the Arc is the parent, whose pose is already
  assigned, and only the pose of the marker itself is written.
\<close>

definition Tag__update_via_arc :: "Map__Struct \<Rightarrow> Tag \<Rightarrow> Arc \<Rightarrow> error + Map__Struct" where
  "Tag__update_via_arc m tag arc =
     bindE (Arc_at m arc) (\<lambda>a.
     bindE (Tag_at m tag) (\<lambda>child.
     bindE (Tag_ref m (Arc_from_tag a)) (\<lambda>from_struct.
     bindE (Tag_ref m (Arc_to_tag a)) (\<lambda>to_struct.
       let parent_is_from = (Arc_to_tag a = Some tag);
           parent = (if parent_is_from then from_struct else to_struct);
           bearing = (if parent_is_from then Tag_twist parent - Arc_from_twist a
                      else Tag_twist parent - Arc_to_twist a + pi);
           twist = (if parent_is_from
                    then Double__angle_normalize
                           (Tag_twist parent - Arc_from_twist a + Arc_to_twist a + pi)
                    else Double__angle_normalize
                           (Tag_twist parent - Arc_to_twist a - Arc_from_twist a))
       in Inr (store_Tag m tag
                 (child\<lparr>Tag_x := Tag_x parent + Arc_distance a * cos bearing,
                    Tag_y := Tag_y parent + Arc_distance a * sin bearing,
                    Tag_twist := twist\<rparr>))))))"

text \<open>
  One tree-growth branch of the loop of \<open>Map__update\<close>: \<open>new_tag\<close> joins the spanning
  tree through \<open>arc\<close>, whose other endpoint \<open>known_tag\<close> is already in it.
\<close>

definition Map__update_grow ::
    "Unsigned \<Rightarrow> Map__Struct \<Rightarrow> Tag \<Rightarrow> Tag \<Rightarrow> Arc \<Rightarrow> error + Map__Struct" where
  "Map__update_grow visit m new_tag known_tag arc =
     (let m1 = store_Tag m new_tag
                 ((Map_tags m ! new_tag)
                    \<lparr>Tag_hop_count := Tag_hop_count (Map_tags m ! known_tag) + 1\<rparr>);
          m2 = m1\<lparr>Map_pending_arcs :=
                    Map_pending_arcs m1 @ Tag_arcs (Map_tags m1 ! new_tag)\<rparr>;
          m3 = store_Tag m2 new_tag ((Map_tags m2 ! new_tag)\<lparr>Tag_visit := visit\<rparr>)
      in Tag__update_via_arc m3 new_tag arc)"

text \<open>The branch \<open>if (from_is_new || to_is_new)\<close> of the loop: grow the tree, mark the
  Arc as part of it, and sort \<open>pending_arcs\<close> again.\<close>

definition Map__update_tree ::
    "Unsigned \<Rightarrow> Map__Struct \<Rightarrow> Tag \<Rightarrow> Tag \<Rightarrow> Arc \<Rightarrow> bool \<Rightarrow> bool \<Rightarrow> error + Map__Struct" where
  "Map__update_tree visit m from_tag to_tag arc from_is_new to_is_new =
     bindE (if from_is_new then
              (if to_is_new then Inl Assert_Failed
               else Map__update_grow visit m from_tag to_tag arc)
            else
              (if from_is_new then Inl Assert_Failed
               else Map__update_grow visit m to_tag from_tag arc)) (\<lambda>m2.
     bindE (Arc_at m2 arc) (\<lambda>a2.
       let m3 = store_Arc m2 arc (a2\<lparr>Arc_in_tree := True\<rparr>)
       in bindE (List__sort (Arc__distance_compare m3) (Map_pending_arcs m3))
            (\<lambda>sorted. Inr (m3\<lparr>Map_pending_arcs := sorted\<rparr>))))"

text \<open>The body of \<open>if (arc->visit != visit)\<close>: the popped Arc \<open>arc\<close>, whose struct is
  \<open>a\<close>, has not been visited in this cycle.\<close>

definition Map__update_arc ::
    "Unsigned \<Rightarrow> Map__Struct \<Rightarrow> Arc \<Rightarrow> Arc__Struct \<Rightarrow> error + Map__Struct" where
  "Map__update_arc visit m arc a =
     (let m1 = store_Arc m arc (a\<lparr>Arc_visit := visit\<rparr>)
      in bindE (Tag_ptr m1 (Arc_from_tag a)) (\<lambda>from_tag.
         bindE (Tag_ptr m1 (Arc_to_tag a)) (\<lambda>to_tag.
           let from_is_new = (Tag_visit (Map_tags m1 ! from_tag) \<noteq> visit);
               to_is_new = (Tag_visit (Map_tags m1 ! to_tag) \<noteq> visit)
           in if from_is_new \<or> to_is_new
              then Map__update_tree visit m1 from_tag to_tag arc from_is_new to_is_new
              else Inr (store_Arc m1 arc ((Map_arcs m1 ! arc)\<lparr>Arc_in_tree := False\<rparr>)))))"

text \<open>One iteration of the \<open>while\<close> loop of \<open>Map__update\<close>, entered with a non-empty
  \<open>pending_arcs\<close>: pop the last Arc and, unless it was visited in this cycle, process
  it.\<close>

definition Map__update_step :: "Unsigned \<Rightarrow> Map__Struct \<Rightarrow> error + Map__Struct" where
  "Map__update_step visit m0 =
     (let arc = last (Map_pending_arcs m0);
          m = m0\<lparr>Map_pending_arcs := butlast (Map_pending_arcs m0)\<rparr>
      in bindE (Arc_at m arc) (\<lambda>a.
           if Arc_visit a \<noteq> visit then Map__update_arc visit m arc a else Inr m))"

function Map__update_loop :: "Unsigned \<Rightarrow> Map__Struct \<Rightarrow> error + Map__Struct" where
  "Map__update_loop visit m =
     (if Map_pending_arcs m = [] then Inr m
      else (case Map__update_step visit m of
              Inl e \<Rightarrow> Inl e
            | Inr m' \<Rightarrow> Map__update_loop visit m'))"
  by pat_completeness auto

text \<open>\<open>Tag__compare\<close> as \<open>List__sort\<close> calls it, on two pointers of \<open>all_tags\<close>.\<close>

definition Tag__compare_at :: "Map__Struct \<Rightarrow> Tag \<Rightarrow> Tag \<Rightarrow> error + int" where
  "Tag__compare_at m tag1 tag2 =
     bindE (Tag_at m tag1) (\<lambda>t1. bindE (Tag_at m tag2) (\<lambda>t2. Inr (Tag__compare t1 t2)))"

text \<open>
  The start of the spanning tree in \<open>Map__update\<close>: the Tag \<open>origin_tag\<close> is stamped
  with the new \<open>visit\<close> and gets hop count 0, and its Arcs are appended to
  \<open>pending_arcs\<close>, which is then sorted.
\<close>

definition Map__update_origin :: "Unsigned \<Rightarrow> Map__Struct \<Rightarrow> Tag \<Rightarrow> error + Map__Struct" where
  "Map__update_origin visit m origin_tag =
     bindE (Tag_at m origin_tag) (\<lambda>origin.
       let m3 = store_Tag m origin_tag (origin\<lparr>Tag_visit := visit, Tag_hop_count := 0\<rparr>);
           m4 = m3\<lparr>Map_pending_arcs :=
                     Map_pending_arcs m3 @ Tag_arcs (Map_tags m3 ! origin_tag)\<rparr>
       in bindE (List__sort (Arc__distance_compare m4) (Map_pending_arcs m4))
            (\<lambda>sorted. Inr (m4\<lparr>Map_pending_arcs := sorted\<rparr>)))"

text \<open>
  \<open>Map__update\<close> up to the head of its \<open>while\<close> loop. \<open>List__fetch\<close> of element 0 of
  an empty list is the error \<open>Out_Of_Bounds\<close>.
\<close>

definition Map__update_init :: "Map__Struct \<Rightarrow> error + Map__Struct" where
  "Map__update_init m =
     (let visit = Map_visit m + 1;
          m1 = m\<lparr>Map_visit := visit\<rparr>
      in bindE (List__sort (Tag__compare_at m1) (Map_all_tags m1)) (\<lambda>all_tags.
         let m2 = m1\<lparr>Map_all_tags := all_tags\<rparr>
         in case all_tags of
              [] \<Rightarrow> Inl Out_Of_Bounds
            | origin_tag # rest \<Rightarrow> Map__update_origin visit m2 origin_tag))"

definition Map__update :: "Map__Struct \<Rightarrow> error + Map__Struct" where
  "Map__update m =
     (if Map_is_changed m then
        bindE (Map__update_init m) (\<lambda>m4.
        bindE (Map__update_loop (Map_visit m4) m4) (\<lambda>m5.
          Inr (m5\<lparr>Map_is_changed := False\<rparr>)))
      else Inr m)"

text \<open>The number of Arcs of the store that the cycle \<open>visit\<close> has not stamped yet: the
  measure of the loop, together with the length of \<open>pending_arcs\<close>.\<close>

definition unvisited :: "Unsigned \<Rightarrow> Map__Struct \<Rightarrow> nat" where
  "unvisited visit m = length (filter (\<lambda>a. Arc_visit a \<noteq> visit) (Map_arcs m))"

subsection \<open>Well-formed maps\<close>

text \<open>
  The pointer structure that the routines above build and rely on. \<open>Arc_ok\<close>: both
  endpoints of an Arc point into the Tag store. \<open>Tag_arcs_ok\<close>: every Arc listed by a
  Tag points into the Arc store and has that Tag as an endpoint. \<open>Tags_table_ok\<close>: the
  Tag table maps an id to a Tag with that id. Between two calls \<open>pending_arcs\<close> is
  empty.
\<close>

definition Arc_ok :: "Map__Struct \<Rightarrow> Arc__Struct \<Rightarrow> bool" where
  "Arc_ok m a =
     ((case Arc_from_tag a of None \<Rightarrow> False | Some p \<Rightarrow> p < length (Map_tags m)) \<and>
      (case Arc_to_tag a of None \<Rightarrow> False | Some p \<Rightarrow> p < length (Map_tags m)))"

definition Tag_arcs_ok :: "Map__Struct \<Rightarrow> Tag \<Rightarrow> Arc list \<Rightarrow> bool" where
  "Tag_arcs_ok m p as =
     (\<forall>arc \<in> set as. arc < length (Map_arcs m) \<and>
        (Arc_from_tag (Map_arcs m ! arc) = Some p \<or> Arc_to_tag (Map_arcs m ! arc) = Some p))"

definition Heap_ok :: "Map__Struct \<Rightarrow> bool" where
  "Heap_ok m =
     ((\<forall>a \<in> set (Map_arcs m). Arc_ok m a) \<and>
      (\<forall>p < length (Map_tags m). Tag_arcs_ok m p (Tag_arcs (Map_tags m ! p))))"

definition Tags_table_ok :: "Map__Struct \<Rightarrow> bool" where
  "Tags_table_ok m =
     (\<forall>(ident, p) \<in> set (Map_tags_table m).
        p < length (Map_tags m) \<and> Tag_id (Map_tags m ! p) = ident)"

definition Map_wf :: "Map__Struct \<Rightarrow> bool" where
  "Map_wf m =
     (Heap_ok m \<and> Tags_table_ok m \<and>
      (\<forall>p \<in> set (Map_all_tags m). p < length (Map_tags m)) \<and>
      (\<forall>arc \<in> set (Map_all_arcs m). arc < length (Map_arcs m)) \<and>
      (\<forall>arc \<in> set (Map_arcs_table m). arc < length (Map_arcs m)) \<and>
      Map_pending_arcs m = [])"

text \<open>The ids of the two endpoints of an Arc, as far as its pointers can be read.\<close>

definition Tag_id_ref :: "Map__Struct \<Rightarrow> Tag option \<Rightarrow> Unsigned option" where
  "Tag_id_ref m q = (case Tag_ref m q of Inl e \<Rightarrow> None | Inr t \<Rightarrow> Some (Tag_id t))"

definition Arc_ids :: "Map__Struct \<Rightarrow> Arc__Struct \<Rightarrow> Unsigned option \<times> Unsigned option" where
  "Arc_ids m a = (Tag_id_ref m (Arc_from_tag a), Tag_id_ref m (Arc_to_tag a))"

text \<open>What \<open>Arc__compare\<close> computes, written on the endpoint ids alone.\<close>

definition Arc__compare_by_ids ::
  "Unsigned option \<times> Unsigned option \<Rightarrow> Unsigned option \<times> Unsigned option \<Rightarrow> error + int" where
  "Arc__compare_by_ids ids1 ids2 =
     (case (fst ids1, fst ids2) of
        (Some from1, Some from2) \<Rightarrow>
          if Unsigned__compare from1 from2 = 0 then
            (case (snd ids1, snd ids2) of
               (Some to1, Some to2) \<Rightarrow> Inr (Unsigned__compare to1 to2)
             | _ \<Rightarrow> Inl Bad_Pointer)
          else Inr (Unsigned__compare from1 from2)
      | _ \<Rightarrow> Inl Bad_Pointer)"

subsection \<open>The frontier of the spanning tree\<close>

text \<open>
  \<open>Tag_visited\<close>: the pointer is valid and its Tag carries the stamp of the cycle.
  \<open>Arc_reached\<close>: the Arc is in the store and at least one of its endpoints has been
  visited. \<open>Frontier_ok\<close>: every Arc of \<open>pending_arcs\<close> is reached.
  \<open>Map__update_reaches visit m0 m\<close>: the loop of \<open>Map__update\<close>, entered with the map
  \<open>m0\<close>, arrives at its head with the map \<open>m\<close> after some number of iterations.
\<close>

definition Tag_visited :: "Unsigned \<Rightarrow> Map__Struct \<Rightarrow> Tag option \<Rightarrow> bool" where
  "Tag_visited visit m q =
     (case q of None \<Rightarrow> False
      | Some p \<Rightarrow> p < length (Map_tags m) \<and> Tag_visit (Map_tags m ! p) = visit)"

definition Arc_reached :: "Unsigned \<Rightarrow> Map__Struct \<Rightarrow> Arc \<Rightarrow> bool" where
  "Arc_reached visit m arc =
     (arc < length (Map_arcs m) \<and>
      (Tag_visited visit m (Arc_from_tag (Map_arcs m ! arc)) \<or>
       Tag_visited visit m (Arc_to_tag (Map_arcs m ! arc))))"

definition Frontier_ok :: "Unsigned \<Rightarrow> Map__Struct \<Rightarrow> bool" where
  "Frontier_ok visit m = (\<forall>arc \<in> set (Map_pending_arcs m). Arc_reached visit m arc)"

inductive Map__update_reaches :: "Unsigned \<Rightarrow> Map__Struct \<Rightarrow> Map__Struct \<Rightarrow> bool"
  for visit :: Unsigned and m0 :: Map__Struct where
  start: "Map__update_reaches visit m0 m0"
| step: "Map__update_reaches visit m0 m \<Longrightarrow> Map_pending_arcs m \<noteq> [] \<Longrightarrow>
         Map__update_step visit m = Inr m' \<Longrightarrow> Map__update_reaches visit m0 m'"

text \<open>
  What one iteration of the loop may change: no Tag gains or loses an Arc and no Arc
  changes its endpoints; a Tag that is visited stays as it is; and an Arc that is new
  in \<open>pending_arcs\<close> is listed by a Tag that is then visited.
\<close>

definition Loop_rel :: "Unsigned \<Rightarrow> Map__Struct \<Rightarrow> Map__Struct \<Rightarrow> bool" where
  "Loop_rel visit m m' =
     (map Tag_arcs (Map_tags m') = map Tag_arcs (Map_tags m) \<and>
      map Arc_from_tag (Map_arcs m') = map Arc_from_tag (Map_arcs m) \<and>
      map Arc_to_tag (Map_arcs m') = map Arc_to_tag (Map_arcs m) \<and>
      (\<forall>p < length (Map_tags m). Tag_visit (Map_tags m ! p) = visit \<longrightarrow>
         Map_tags m' ! p = Map_tags m ! p) \<and>
      (\<forall>arc \<in> set (Map_pending_arcs m').
         arc \<in> set (Map_pending_arcs m) \<or>
         (\<exists>p < length (Map_tags m). Tag_visit (Map_tags m' ! p) = visit \<and>
            arc \<in> set (Tag_arcs (Map_tags m ! p)))))"

subsection \<open>Example maps\<close>

text \<open>The element \<open><Arc From_Tag_Id="1" From_Twist="0" Distance="2" To_Tag_Id="2"
  To_Twist="0" Goodness="1" In_Tree="0"/>\<close>, the map that \<open>Arc__read\<close> makes of it
  from the empty map, and that map after \<open>Map__update\<close>.\<close>

definition example_element_12 :: Arc_Element where
  "example_element_12 =
     \<lparr>From_Tag_Id = 1, From_Twist = 0, Distance = 2, To_Tag_Id = 2, To_Twist = 0,
      Goodness = 1, In_Tree = False\<rparr>"

definition example_map_12 :: Map__Struct where
  "example_map_12 =
     \<lparr>Map_tags =
        [\<lparr>Tag_arcs = [0], Tag_distance_per_pixel = 0, Tag_hop_count = 0, Tag_id = 1,
           Tag_twist = 0, Tag_visit = 0, Tag_x = 0, Tag_y = 0\<rparr>,
         \<lparr>Tag_arcs = [0], Tag_distance_per_pixel = 0, Tag_hop_count = 0, Tag_id = 2,
           Tag_twist = 0, Tag_visit = 0, Tag_x = 0, Tag_y = 0\<rparr>],
      Map_arcs =
        [\<lparr>Arc_distance = 2, Arc_from_tag = Some 0, Arc_from_twist = 0, Arc_goodness = 1,
           Arc_in_tree = False, Arc_to_tag = Some 1, Arc_to_twist = 0, Arc_visit = 0\<rparr>],
      Map_all_arcs = [0], Map_all_tags = [0, 1], Map_arcs_table = [],
      Map_is_changed = True, Map_pending_arcs = [], Map_tag_heights = [],
      Map_tags_table = [(2, 1), (1, 0)], Map_temporary_arc = Arc__new, Map_visit = 0\<rparr>"

definition example_map_12_updated :: Map__Struct where
  "example_map_12_updated =
     \<lparr>Map_tags =
        [\<lparr>Tag_arcs = [0], Tag_distance_per_pixel = 0, Tag_hop_count = 0, Tag_id = 1,
           Tag_twist = 0, Tag_visit = 1, Tag_x = 0, Tag_y = 0\<rparr>,
         \<lparr>Tag_arcs = [0], Tag_distance_per_pixel = 0, Tag_hop_count = 1, Tag_id = 2,
           Tag_twist = pi, Tag_visit = 1, Tag_x = 2, Tag_y = 0\<rparr>],
      Map_arcs =
        [\<lparr>Arc_distance = 2, Arc_from_tag = Some 0, Arc_from_twist = 0, Arc_goodness = 1,
           Arc_in_tree = True, Arc_to_tag = Some 1, Arc_to_twist = 0, Arc_visit = 1\<rparr>],
      Map_all_arcs = [0], Map_all_tags = [0, 1], Map_arcs_table = [],
      Map_is_changed = False, Map_pending_arcs = [], Map_tag_heights = [],
      Map_tags_table = [(2, 1), (1, 0)], Map_temporary_arc = Arc__new, Map_visit = 1\<rparr>"

text \<open>An element whose ids are in descending order, with two different twists, and
  an element that names the same marker twice.\<close>

definition example_element_21 :: Arc_Element where
  "example_element_21 =
     \<lparr>From_Tag_Id = 2, From_Twist = 90, Distance = 2, To_Tag_Id = 1, To_Twist = 0,
      Goodness = 1, In_Tree = False\<rparr>"

definition example_element_33 :: Arc_Element where
  "example_element_33 =
     \<lparr>From_Tag_Id = 3, From_Twist = 0, Distance = 2, To_Tag_Id = 3, To_Twist = 0,
      Goodness = 1, In_Tree = False\<rparr>"

text \<open>What \<open>Arc__read\<close> makes of these two elements, from the empty map.\<close>

definition example_map_21 :: Map__Struct where
  "example_map_21 =
     \<lparr>Map_tags =
        [\<lparr>Tag_arcs = [0], Tag_distance_per_pixel = 0, Tag_hop_count = 0, Tag_id = 2,
           Tag_twist = 0, Tag_visit = 0, Tag_x = 0, Tag_y = 0\<rparr>,
         \<lparr>Tag_arcs = [0], Tag_distance_per_pixel = 0, Tag_hop_count = 0, Tag_id = 1,
           Tag_twist = 0, Tag_visit = 0, Tag_x = 0, Tag_y = 0\<rparr>],
      Map_arcs =
        [\<lparr>Arc_distance = 2, Arc_from_tag = Some 1, Arc_from_twist = 0, Arc_goodness = 1,
           Arc_in_tree = False, Arc_to_tag = Some 0,
           Arc_to_twist = 90 * (3.14159265358979323846264 / 180), Arc_visit = 0\<rparr>],
      Map_all_arcs = [0], Map_all_tags = [0, 1], Map_arcs_table = [],
      Map_is_changed = True, Map_pending_arcs = [], Map_tag_heights = [],
      Map_tags_table = [(1, 1), (2, 0)], Map_temporary_arc = Arc__new, Map_visit = 0\<rparr>"

definition example_map_33 :: Map__Struct where
  "example_map_33 =
     \<lparr>Map_tags =
        [\<lparr>Tag_arcs = [0], Tag_distance_per_pixel = 0, Tag_hop_count = 0, Tag_id = 3,
           Tag_twist = 0, Tag_visit = 0, Tag_x = 0, Tag_y = 0\<rparr>],
      Map_arcs =
        [\<lparr>Arc_distance = 2, Arc_from_tag = Some 0, Arc_from_twist = 0, Arc_goodness = 1,
           Arc_in_tree = False, Arc_to_tag = Some 0, Arc_to_twist = 0, Arc_visit = 0\<rparr>],
      Map_all_arcs = [0], Map_all_tags = [0], Map_arcs_table = [],
      Map_is_changed = True, Map_pending_arcs = [], Map_tag_heights = [],
      Map_tags_table = [(3, 0)], Map_temporary_arc = Arc__new, Map_visit = 0\<rparr>"

text \<open>A detection of one marker at the centre of a 0 by 0 image.\<close>

definition example_camera_centre :: "Tag \<Rightarrow> Camera_Tag__Struct" where
  "example_camera_centre tag =
     \<lparr>Camera_Tag_tag = tag, Camera_Tag_twist = 0, Camera_Tag_x = 0, Camera_Tag_y = 0\<rparr>"

definition example_image :: CV_Image__Struct where
  "example_image = \<lparr>CV_Image_height = 0, CV_Image_width = 0\<rparr>"

text \<open>The map \<open>example_map_12\<close> with other measured values in its Arc.\<close>

definition example_map_12_remeasured :: Map__Struct where
  "example_map_12_remeasured =
     example_map_12\<lparr>Map_arcs :=
       [\<lparr>Arc_distance = 7, Arc_from_tag = Some 0, Arc_from_twist = 1, Arc_goodness = 0,
          Arc_in_tree = True, Arc_to_tag = Some 1, Arc_to_twist = 1, Arc_visit = 5\<rparr>]\<rparr>"

text \<open>
  An ingest scenario. \<open>example_map_tags\<close>: the empty map with one height entry for the
  ids 0 to 99 and the markers 1 and 2 looked up. \<open>example_camera_at tag x\<close>: a detection
  of the marker at pixel \<open>(x, 0)\<close>; with the other marker at the centre of the image
  the goodness of the pair is \<open>x\<close>. \<open>example_map_measured\<close>: the map after an ingest
  with goodness 20 and a \<open>Map__update\<close>. \<open>example_map_improved\<close>: that map after one
  more ingest of the same pair, with goodness 2.
\<close>

definition example_map_tags :: Map__Struct where
  "example_map_tags =
     fst (Map__tag_lookup (fst (Map__tag_lookup
       (Map__new\<lparr>Map_tag_heights :=
          [\<lparr>Tag_Height_first_id = 0, Tag_Height_last_id = 99,
             Tag_Height_distance_per_pixel = 1\<rparr>]\<rparr>) 1)) 2)"

definition example_camera_at :: "Tag \<Rightarrow> real \<Rightarrow> Camera_Tag__Struct" where
  "example_camera_at tag x =
     \<lparr>Camera_Tag_tag = tag, Camera_Tag_twist = - 3.14159265358979323846264,
      Camera_Tag_x = x, Camera_Tag_y = 0\<rparr>"

definition example_map_measured :: Map__Struct where
  "example_map_measured =
     \<lparr>Map_tags =
        [\<lparr>Tag_arcs = [0], Tag_distance_per_pixel = 1, Tag_hop_count = 0, Tag_id = 1,
           Tag_twist = 0, Tag_visit = 1, Tag_x = 0, Tag_y = 0\<rparr>,
         \<lparr>Tag_arcs = [0], Tag_distance_per_pixel = 1, Tag_hop_count = 1, Tag_id = 2,
           Tag_twist = pi, Tag_visit = 1, Tag_x = 20, Tag_y = 0\<rparr>],
      Map_arcs =
        [\<lparr>Arc_distance = 20, Arc_from_tag = Some 0, Arc_from_twist = 0, Arc_goodness = 20,
           Arc_in_tree = True, Arc_to_tag = Some 1, Arc_to_twist = 0, Arc_visit = 1\<rparr>],
      Map_all_arcs = [0], Map_all_tags = [0, 1], Map_arcs_table = [0],
      Map_is_changed = False, Map_pending_arcs = [],
      Map_tag_heights =
        [\<lparr>Tag_Height_first_id = 0, Tag_Height_last_id = 99,
           Tag_Height_distance_per_pixel = 1\<rparr>],
      Map_tags_table = [(2, 1), (1, 0)],
      Map_temporary_arc = Arc__new\<lparr>Arc_from_tag := Some 0, Arc_to_tag := Some 1\<rparr>,
      Map_visit = 1\<rparr>"

definition example_map_improved :: Map__Struct where
  "example_map_improved =
     example_map_measured\<lparr>Map_arcs :=
       [\<lparr>Arc_distance = 2, Arc_from_tag = Some 0, Arc_from_twist = 0, Arc_goodness = 2,
          Arc_in_tree = True, Arc_to_tag = Some 1, Arc_to_twist = 0, Arc_visit = 1\<rparr>]\<rparr>"

text \<open>The map \<open>example_map_12\<close>, which \<open>Arc__read\<close> made, after a lookup of the Arc
  between its two markers.\<close>

definition example_map_12_twice :: Map__Struct where
  "example_map_12_twice =
     \<lparr>Map_tags =
        [\<lparr>Tag_arcs = [0, 1], Tag_distance_per_pixel = 0, Tag_hop_count = 0, Tag_id = 1,
           Tag_twist = 0, Tag_visit = 0, Tag_x = 0, Tag_y = 0\<rparr>,
         \<lparr>Tag_arcs = [0, 1], Tag_distance_per_pixel = 0, Tag_hop_count = 0, Tag_id = 2,
           Tag_twist = 0, Tag_visit = 0, Tag_x = 0, Tag_y = 0\<rparr>],
      Map_arcs =
        [\<lparr>Arc_distance = 2, Arc_from_tag = Some 0, Arc_from_twist = 0, Arc_goodness = 1,
           Arc_in_tree = False, Arc_to_tag = Some 1, Arc_to_twist = 0, Arc_visit = 0\<rparr>,
         \<lparr>Arc_distance = 0, Arc_from_tag = Some 0, Arc_from_twist = 0,
           Arc_goodness = 123456789, Arc_in_tree = False, Arc_to_tag = Some 1,
           Arc_to_twist = 0, Arc_visit = 0\<rparr>],
      Map_all_arcs = [0, 1], Map_all_tags = [0, 1], Map_arcs_table = [1],
      Map_is_changed = True, Map_pending_arcs = [], Map_tag_heights = [],
      Map_tags_table = [(2, 1), (1, 0)],
      Map_temporary_arc = Arc__new\<lparr>Arc_from_tag := Some 0, Arc_to_tag := Some 1\<rparr>,
      Map_visit = 0\<rparr>"

text \<open>The map \<open>example_map_12\<close> at the head of the loop of its first \<open>Map__update\<close>.\<close>

definition example_map_12_frontier :: Map__Struct where
  "example_map_12_frontier =
     example_map_12\<lparr>Map_tags :=
       [\<lparr>Tag_arcs = [0], Tag_distance_per_pixel = 0, Tag_hop_count = 0, Tag_id = 1,
          Tag_twist = 0, Tag_visit = 1, Tag_x = 0, Tag_y = 0\<rparr>,
        \<lparr>Tag_arcs = [0], Tag_distance_per_pixel = 0, Tag_hop_count = 0, Tag_id = 2,
          Tag_twist = 0, Tag_visit = 0, Tag_x = 0, Tag_y = 0\<rparr>],
       Map_pending_arcs := [0], Map_visit := 1\<rparr>"

text \<open>The map \<open>example_map_12\<close> with its marker 1 at \<open>x = 5\<close>, as a map file can
  record it, and that map after \<open>Map__update\<close>.\<close>

definition example_map_moved :: Map__Struct where
  "example_map_moved =
     example_map_12\<lparr>Map_tags :=
       [\<lparr>Tag_arcs = [0], Tag_distance_per_pixel = 0, Tag_hop_count = 0, Tag_id = 1,
          Tag_twist = 0, Tag_visit = 0, Tag_x = 5, Tag_y = 0\<rparr>,
        \<lparr>Tag_arcs = [0], Tag_distance_per_pixel = 0, Tag_hop_count = 0, Tag_id = 2,
          Tag_twist = 0, Tag_visit = 0, Tag_x = 0, Tag_y = 0\<rparr>]\<rparr>"

definition example_map_moved_updated :: Map__Struct where
  "example_map_moved_updated =
     example_map_12_updated\<lparr>Map_tags :=
       [\<lparr>Tag_arcs = [0], Tag_distance_per_pixel = 0, Tag_hop_count = 0, Tag_id = 1,
          Tag_twist = 0, Tag_visit = 1, Tag_x = 5, Tag_y = 0\<rparr>,
        \<lparr>Tag_arcs = [0], Tag_distance_per_pixel = 0, Tag_hop_count = 1, Tag_id = 2,
          Tag_twist = pi, Tag_visit = 1, Tag_x = 7, Tag_y = 0\<rparr>]\<rparr>"

section \<open>Basic facts\<close>

lemma bindE_simps [simp]: "bindE (Inr x) f = f x" "bindE (Inl e) f = Inl e"
  by (simp_all add: bindE_def)

lemma bindE_eq_Inr: "bindE r f = Inr y \<longleftrightarrow> (\<exists>x. r = Inr x \<and> f x = Inr y)"
  by (cases r) simp_all

lemma bindE_InrE:
  assumes "bindE r f = Inr y"
  obtains x where "r = Inr x" "f x = Inr y"
  using assms by (auto simp: bindE_eq_Inr)

lemma Tag_at_InrD: "Tag_at m p = Inr t \<Longrightarrow> p < length (Map_tags m) \<and> t = Map_tags m ! p"
  by (auto simp: Tag_at_def split: if_splits)

lemma Arc_at_InrD: "Arc_at m p = Inr a \<Longrightarrow> p < length (Map_arcs m) \<and> a = Map_arcs m ! p"
  by (auto simp: Arc_at_def split: if_splits)

lemma Tag__update_via_arc_frame:
  assumes "Tag__update_via_arc m tag arc = Inr m'"
  shows "tag < length (Map_tags m) \<and>
     (\<exists>x y w. m' = store_Tag m tag ((Map_tags m ! tag)\<lparr>Tag_x := x, Tag_y := y, Tag_twist := w\<rparr>))"
proof -
  from assms obtain a child from_struct to_struct x y w where
    c: "Tag_at m tag = Inr child" and
    m': "m' = store_Tag m tag (child\<lparr>Tag_x := x, Tag_y := y, Tag_twist := w\<rparr>)"
    unfolding Tag__update_via_arc_def Let_def
    by (elim bindE_InrE) (simp, blast)
  from c have "tag < length (Map_tags m)" "child = Map_tags m ! tag"
    by (auto dest: Tag_at_InrD)
  with m' show ?thesis by blast
qed

lemma Map__update_grow_frame:
  assumes "Map__update_grow visit m new_tag known_tag arc = Inr m'"
  shows "Map_arcs m' = Map_arcs m \<and> length (Map_tags m') = length (Map_tags m)"
proof -
  from assms obtain m3 where a: "Tag__update_via_arc m3 new_tag arc = Inr m'"
    and b: "Map_arcs m3 = Map_arcs m" "length (Map_tags m3) = length (Map_tags m)"
    by (simp add: Map__update_grow_def Let_def store_Tag_def)
  from Tag__update_via_arc_frame[OF a] b show ?thesis
    by (auto simp: store_Tag_def)
qed

lemma List__insert_set:
  "List__insert cmp x ys = Inr zs \<Longrightarrow> set zs = insert x (set ys) \<and> length zs = Suc (length ys)"
proof (induction ys arbitrary: zs)
  case Nil
  then show ?case by auto
next
  case (Cons y ys)
  from Cons.prems obtain c where c: "cmp x y = Inr c"
    by (cases "cmp x y") simp_all
  show ?case
  proof (cases "c \<le> 0")
    case True
    with c Cons.prems show ?thesis by auto
  next
    case False
    with c Cons.prems obtain zs' where z: "List__insert cmp x ys = Inr zs'" "zs = y # zs'"
      by (cases "List__insert cmp x ys") auto
    from Cons.IH[OF z(1)] z(2) show ?thesis by auto
  qed
qed

lemma List__sort_set:
  "List__sort cmp xs = Inr ys \<Longrightarrow> set ys = set xs \<and> length ys = length xs"
proof (induction xs arbitrary: ys)
  case Nil
  then show ?case by simp
next
  case (Cons x xs)
  from Cons.prems obtain ys' where y: "List__sort cmp xs = Inr ys'" "List__insert cmp x ys' = Inr ys"
    by (cases "List__sort cmp xs") auto
  from Cons.IH[OF y(1)] List__insert_set[OF y(2)] show ?case by auto
qed

lemma filter_update_less:
  assumes "i < length xs" "P (xs ! i)" "\<not> P x"
  shows "length (filter P (xs[i := x])) < length (filter P xs)"
  using assms
proof (induction xs arbitrary: i)
  case Nil then show ?case by simp
next
  case (Cons y ys)
  show ?case
  proof (cases i)
    case 0
    with Cons.prems show ?thesis by simp
  next
    case (Suc j)
    with Cons.IH[of j] Cons.prems show ?thesis by simp
  qed
qed

lemma filter_update_same:
  assumes "i < length xs" "P x = P (xs ! i)"
  shows "length (filter P (xs[i := x])) = length (filter P xs)"
  using assms
proof (induction xs arbitrary: i)
  case Nil then show ?case by simp
next
  case (Cons y ys)
  show ?case
  proof (cases i)
    case 0
    with Cons.prems show ?thesis by simp
  next
    case (Suc j)
    with Cons.IH[of j] Cons.prems show ?thesis by simp
  qed
qed

lemma unvisited_store_Arc_same:
  "arc < length (Map_arcs m) \<Longrightarrow> Arc_visit a = Arc_visit (Map_arcs m ! arc)
     \<Longrightarrow> unvisited visit (store_Arc m arc a) = unvisited visit m"
  by (simp add: unvisited_def store_Arc_def filter_update_same)

lemma unvisited_store_Arc_less:
  "arc < length (Map_arcs m) \<Longrightarrow> Arc_visit (Map_arcs m ! arc) \<noteq> visit \<Longrightarrow> Arc_visit a = visit
     \<Longrightarrow> unvisited visit (store_Arc m arc a) < unvisited visit m"
  by (simp add: unvisited_def store_Arc_def filter_update_less)

lemma unvisited_cong: "Map_arcs m' = Map_arcs m \<Longrightarrow> unvisited visit m' = unvisited visit m"
  by (simp add: unvisited_def)

lemma Map__update_tree_unvisited:
  assumes "Map__update_tree visit m from_tag to_tag arc fnew tnew = Inr m'"
  shows "unvisited visit m' = unvisited visit m"
proof -
  from assms obtain m2 a2 sorted where
    g: "(if fnew then (if tnew then Inl Assert_Failed else Map__update_grow visit m from_tag to_tag arc)
         else (if fnew then Inl Assert_Failed else Map__update_grow visit m to_tag from_tag arc)) = Inr m2"
    and a2: "Arc_at m2 arc = Inr a2"
    and m': "m' = (store_Arc m2 arc (a2\<lparr>Arc_in_tree := True\<rparr>))\<lparr>Map_pending_arcs := sorted\<rparr>"
    unfolding Map__update_tree_def Let_def
    by (elim bindE_InrE) (simp, blast)
  from g have arcs2: "Map_arcs m2 = Map_arcs m"
    by (auto split: if_splits dest: Map__update_grow_frame)
  from a2 have v: "arc < length (Map_arcs m2)" "a2 = Map_arcs m2 ! arc"
    by (auto simp: Arc_at_def split: if_splits)
  have "unvisited visit m' = unvisited visit (store_Arc m2 arc (a2\<lparr>Arc_in_tree := True\<rparr>))"
    unfolding m' by (simp add: unvisited_def)
  also have "\<dots> = unvisited visit m2"
    using v by (simp add: unvisited_store_Arc_same)
  also have "\<dots> = unvisited visit m"
    using arcs2 by (rule unvisited_cong)
  finally show ?thesis .
qed

lemma Map__update_arc_unvisited:
  assumes "Map__update_arc visit m arc a = Inr m'" "Arc_at m arc = Inr a" "Arc_visit a \<noteq> visit"
  shows "unvisited visit m' < unvisited visit m"
proof -
  let ?m1 = "store_Arc m arc (a\<lparr>Arc_visit := visit\<rparr>)"
  from assms(2) have v: "arc < length (Map_arcs m)" "a = Map_arcs m ! arc"
    by (auto simp: Arc_at_def split: if_splits)
  have less: "unvisited visit ?m1 < unvisited visit m"
    using v assms(3) by (simp add: unvisited_store_Arc_less)
  have v1: "arc < length (Map_arcs ?m1)" using v by (simp add: store_Arc_def)
  from assms(1) obtain from_tag to_tag where
    r: "(if Tag_visit (Map_tags ?m1 ! from_tag) \<noteq> visit \<or> Tag_visit (Map_tags ?m1 ! to_tag) \<noteq> visit
         then Map__update_tree visit ?m1 from_tag to_tag arc
                (Tag_visit (Map_tags ?m1 ! from_tag) \<noteq> visit) (Tag_visit (Map_tags ?m1 ! to_tag) \<noteq> visit)
         else Inr (store_Arc ?m1 arc ((Map_arcs ?m1 ! arc)\<lparr>Arc_in_tree := False\<rparr>))) = Inr m'"
    unfolding Map__update_arc_def Let_def
    by (elim bindE_InrE) blast
  have "unvisited visit m' = unvisited visit ?m1"
  proof (cases "Tag_visit (Map_tags ?m1 ! from_tag) \<noteq> visit \<or> Tag_visit (Map_tags ?m1 ! to_tag) \<noteq> visit")
    case True
    with r show ?thesis by (auto dest: Map__update_tree_unvisited)
  next
    case False
    with r have "m' = store_Arc ?m1 arc ((Map_arcs ?m1 ! arc)\<lparr>Arc_in_tree := False\<rparr>)" by auto
    then show ?thesis using v1 by (simp add: unvisited_store_Arc_same)
  qed
  with less show ?thesis by simp
qed

lemma Map__update_step_decreases:
  assumes "Map__update_step visit m = Inr m'" "Map_pending_arcs m \<noteq> []"
  shows "unvisited visit m' < unvisited visit m
       \<or> (unvisited visit m' = unvisited visit m
          \<and> length (Map_pending_arcs m') < length (Map_pending_arcs m))"
proof -
  let ?m = "m\<lparr>Map_pending_arcs := butlast (Map_pending_arcs m)\<rparr>"
  let ?arc = "last (Map_pending_arcs m)"
  from assms(1) obtain a where a: "Arc_at ?m ?arc = Inr a"
    and r: "(if Arc_visit a \<noteq> visit then Map__update_arc visit ?m ?arc a else Inr ?m) = Inr m'"
    unfolding Map__update_step_def Let_def
    by (elim bindE_InrE) blast
  have u: "unvisited visit ?m = unvisited visit m" by (simp add: unvisited_def)
  show ?thesis
  proof (cases "Arc_visit a \<noteq> visit")
    case True
    with r a have "unvisited visit m' < unvisited visit ?m"
      by (auto dest: Map__update_arc_unvisited)
    with u show ?thesis by simp
  next
    case False
    with r have "m' = ?m" by simp
    with assms(2) u show ?thesis by simp
  qed
qed

termination Map__update_loop
proof (relation "inv_image (less_than <*lex*> less_than)
                   (\<lambda>(visit, m). (unvisited visit m, length (Map_pending_arcs m)))")
  show "wf (inv_image (less_than <*lex*> less_than)
              (\<lambda>(visit, m). (unvisited visit m, length (Map_pending_arcs m))))"
    by (intro wf_inv_image wf_lex_prod wf_less_than)
next
  fix visit :: Unsigned and m m' :: Map__Struct
  assume "Map_pending_arcs m \<noteq> []" "Map__update_step visit m = Inr m'"
  from Map__update_step_decreases[OF this(2) this(1)]
  show "((visit, m'), (visit, m)) \<in> inv_image (less_than <*lex*> less_than)
          (\<lambda>(visit, m). (unvisited visit m, length (Map_pending_arcs m)))"
    by auto
qed

section \<open>Facts about the creation of Tags and Arcs\<close>

lemma nth_list_update_if:
  "xs[i := x] ! j = (if i = j \<and> i < length xs then x else xs ! j)"
  by (cases "i < length xs") (auto simp: nth_list_update list_update_beyond)

lemma Tag__arc_append_fields [simp]:
  "Tag_id (Tag__arc_append t arc) = Tag_id t"
  "Tag_visit (Tag__arc_append t arc) = Tag_visit t"
  "Tag_hop_count (Tag__arc_append t arc) = Tag_hop_count t"
  "Tag_x (Tag__arc_append t arc) = Tag_x t"
  "Tag_y (Tag__arc_append t arc) = Tag_y t"
  "Tag_twist (Tag__arc_append t arc) = Tag_twist t"
  "Tag_distance_per_pixel (Tag__arc_append t arc) = Tag_distance_per_pixel t"
  "set (Tag_arcs (Tag__arc_append t arc)) = insert arc (set (Tag_arcs t))"
  by (auto simp: Tag__arc_append_def)

lemma Arc__create_load_arcs:
  "Map_arcs (fst (Arc__create_load m f ft d t tt g)) =
     Map_arcs m @ [Arc__new\<lparr>Arc_distance := d, Arc_from_tag := Some f, Arc_from_twist := ft,
        Arc_goodness := g, Arc_to_tag := Some t, Arc_to_twist := tt\<rparr>]"
  by (simp add: Arc__create_load_def Let_def store_Tag_def Map__arc_append_def)

lemma Arc__create_load_snd: "snd (Arc__create_load m f ft d t tt g) = length (Map_arcs m)"
  by (simp add: Arc__create_load_def Let_def)

lemma Arc__create_load_tags:
  "Map_tags (fst (Arc__create_load m f ft d t tt g)) =
     ((Map_tags m)[f := Tag__arc_append (Map_tags m ! f) (length (Map_arcs m))])
       [t := Tag__arc_append (((Map_tags m)[f := Tag__arc_append (Map_tags m ! f) (length (Map_arcs m))]) ! t)
               (length (Map_arcs m))]"
  by (simp add: Arc__create_load_def Let_def store_Tag_def Map__arc_append_def)

lemma Arc__create_load_tags_length [simp]:
  "length (Map_tags (fst (Arc__create_load m f ft d t tt g))) = length (Map_tags m)"
  by (simp add: Arc__create_load_tags)

lemma Arc__create_load_Tag_id [simp]:
  "p < length (Map_tags m) \<Longrightarrow>
     Tag_id (Map_tags (fst (Arc__create_load m f ft d t tt g)) ! p) = Tag_id (Map_tags m ! p)"
  by (simp add: Arc__create_load_tags nth_list_update_if)

lemma Arc__create_load_other:
  "Map_all_arcs (fst (Arc__create_load m f ft d t tt g)) = Map_all_arcs m @ [length (Map_arcs m)]"
  "Map_is_changed (fst (Arc__create_load m f ft d t tt g))"
  "Map_all_tags (fst (Arc__create_load m f ft d t tt g)) = Map_all_tags m"
  "Map_arcs_table (fst (Arc__create_load m f ft d t tt g)) = Map_arcs_table m"
  "Map_pending_arcs (fst (Arc__create_load m f ft d t tt g)) = Map_pending_arcs m"
  "Map_tags_table (fst (Arc__create_load m f ft d t tt g)) = Map_tags_table m"
  "Map_tag_heights (fst (Arc__create_load m f ft d t tt g)) = Map_tag_heights m"
  "Map_temporary_arc (fst (Arc__create_load m f ft d t tt g)) = Map_temporary_arc m"
  "Map_visit (fst (Arc__create_load m f ft d t tt g)) = Map_visit m"
  by (simp_all add: Arc__create_load_def Let_def store_Tag_def Map__arc_append_def)

lemma Arc__create_eq:
  assumes "f < length (Map_tags m)" "t < length (Map_tags m)"
  shows "Arc__create m f ft d t tt g =
     Inr (if Tag_id (Map_tags m ! f) > Tag_id (Map_tags m ! t)
          then Arc__create_load m t tt d f ft g else Arc__create_load m f ft d t tt g)"
  using assms by (simp add: Arc__create_def Tag_at_def)

lemma Map__tag_lookup_ok:
  assumes "Tags_table_ok m" "Map__tag_lookup m i = (m1, p)"
  shows "p < length (Map_tags m1)" "Tag_id (Map_tags m1 ! p) = i" "Tags_table_ok m1"
    "length (Map_tags m) \<le> length (Map_tags m1)"
    "\<And>q. q < length (Map_tags m) \<Longrightarrow> Map_tags m1 ! q = Map_tags m ! q"
    "Map_arcs m1 = Map_arcs m"
proof -
  show "p < length (Map_tags m1)" "Tag_id (Map_tags m1 ! p) = i"
    using assms
    by (auto simp: Map__tag_lookup_def Tags_table_ok_def Let_def Tag__create_def
        split: option.splits dest!: map_of_SomeD)
  show "Tags_table_ok m1"
    using assms
    by (fastforce simp: Map__tag_lookup_def Tags_table_ok_def Let_def Tag__create_def nth_append
        split: option.splits)
  show "length (Map_tags m) \<le> length (Map_tags m1)" "Map_arcs m1 = Map_arcs m"
    using assms(2) by (auto simp: Map__tag_lookup_def Let_def split: option.splits)
  show "\<And>q. q < length (Map_tags m) \<Longrightarrow> Map_tags m1 ! q = Map_tags m ! q"
    using assms(2) by (auto simp: Map__tag_lookup_def Let_def nth_append split: option.splits)
qed

lemma Tag_id_ref_Some:
  "p < length (Map_tags m) \<Longrightarrow> Tag_id_ref m (Some p) = Some (Tag_id (Map_tags m ! p))"
  by (simp add: Tag_id_ref_def Tag_ref_def Tag_at_def)


lemma Arc_ids_eq:
  assumes "Arc_from_tag a = Some f" "Arc_to_tag a = Some t"
    "f < length (Map_tags m)" "t < length (Map_tags m)"
  shows "Arc_ids m a = (Some (Tag_id (Map_tags m ! f)), Some (Tag_id (Map_tags m ! t)))"
  using assms by (simp add: Arc_ids_def Tag_id_ref_def Tag_ref_def Tag_at_def)

section \<open>Comparing Arcs and maps by their ids\<close>

lemma Tag_ref_disj:
  "(Tag_ref m q = Inl Bad_Pointer \<and> Tag_id_ref m q = None) \<or>
   (\<exists>t. Tag_ref m q = Inr t \<and> Tag_id_ref m q = Some (Tag_id t))"
  by (cases q) (simp_all add: Tag_ref_def Tag_id_ref_def Tag_at_def)

lemma Tag_ref_cases:
  obtains (bad) "Tag_ref m q = Inl Bad_Pointer" "Tag_id_ref m q = None"
  | (ok) t where "Tag_ref m q = Inr t" "Tag_id_ref m q = Some (Tag_id t)"
  using Tag_ref_disj[of m q] by auto

lemma Arc__compare_by_ids: 
  "Arc__compare m1 a1 m2 a2 = Arc__compare_by_ids (Arc_ids m1 a1) (Arc_ids m2 a2)"
proof -
  show ?thesis
  proof (cases rule: Tag_ref_cases[of m1 "Arc_from_tag a1"])
    case bad
    then show ?thesis
      by (simp add: Arc__compare_def Arc__compare_by_ids_def Arc_ids_def)
  next
    case f1: (ok from1)
    show ?thesis
    proof (cases rule: Tag_ref_cases[of m2 "Arc_from_tag a2"])
      case bad
      with f1 show ?thesis
        by (simp add: Arc__compare_def Arc__compare_by_ids_def Arc_ids_def)
    next
      case f2: (ok from2)
      show ?thesis
      proof (cases rule: Tag_ref_cases[of m1 "Arc_to_tag a1"])
        case bad
        with f1 f2 show ?thesis
          by (simp add: Arc__compare_def Arc__compare_by_ids_def Arc_ids_def Tag__compare_def Let_def)
      next
        case t1: (ok to1)
        show ?thesis
        proof (cases rule: Tag_ref_cases[of m2 "Arc_to_tag a2"])
          case bad
          with f1 f2 t1 show ?thesis
            by (simp add: Arc__compare_def Arc__compare_by_ids_def Arc_ids_def Tag__compare_def Let_def)
        next
          case t2: (ok to2)
          with f1 f2 t1 show ?thesis
            by (simp add: Arc__compare_def Arc__compare_by_ids_def Arc_ids_def Tag__compare_def Let_def)
        qed
      qed
    qed
  qed
qed

lemma Arc__hash_by_ids:
  "Arc__hash m a =
     (case Arc_ids m a of
        (Some i, Some j) \<Rightarrow> Inr (Unsigned__hash i + Unsigned__hash j)
      | _ \<Rightarrow> Inl Bad_Pointer)"
proof (cases rule: Tag_ref_cases[of m "Arc_from_tag a"])
  case bad
  then show ?thesis by (simp add: Arc__hash_def Arc_ids_def)
next
  case f: (ok from_tag)
  show ?thesis
  proof (cases rule: Tag_ref_cases[of m "Arc_to_tag a"])
    case bad
    with f show ?thesis by (simp add: Arc__hash_def Arc_ids_def)
  next
    case (ok to_tag)
    with f show ?thesis by (simp add: Arc__hash_def Arc_ids_def Tag__hash_def)
  qed
qed

lemma Arc__compare_same_ids:
  "Arc_ids m1 a1 = (Some i, Some j) \<Longrightarrow> Arc_ids m2 a2 = (Some i, Some j)
     \<Longrightarrow> Arc__compare m1 a1 m2 a2 = Inr 0"
  by (simp add: Arc__compare_by_ids Arc__compare_by_ids_def Unsigned__compare_def)


lemma Tag_at_cong: "Map_tags m' = Map_tags m \<Longrightarrow> Tag_at m' p = Tag_at m p"
  by (simp add: Tag_at_def)

lemma Map__compare_tags_left:
  assumes "Map_tags m' = Map_tags m"
  shows "Map__compare_tags m' xs n ys = Map__compare_tags m xs n ys"
proof (induction xs arbitrary: ys)
  case Nil
  show ?case by simp
next
  case (Cons x xs)
  show ?case
  proof (cases ys)
    case Nil
    then show ?thesis by simp
  next
    case (Cons y ys')
    then show ?thesis
      by (simp add: Tag_at_cong[OF assms] Cons.IH split: sum.splits)
  qed
qed

lemma Map__compare_tags_right:
  assumes "Map_tags m' = Map_tags m"
  shows "Map__compare_tags n ys m' xs = Map__compare_tags n ys m xs"
proof (induction ys arbitrary: xs)
  case Nil
  show ?case by simp
next
  case (Cons y ys)
  show ?case
  proof (cases xs)
    case Nil
    then show ?thesis by simp
  next
    case (Cons x xs')
    then show ?thesis
      by (simp add: Tag_at_cong[OF assms] Cons.IH split: sum.splits)
  qed
qed

text \<open>Two maps whose Arc stores agree on the endpoint ids of every Arc.\<close>

lemma Arc_at_agree:
  assumes "length (Map_arcs m') = length (Map_arcs m)"
  shows "(Arc_at m' p = Inl Bad_Pointer \<and> Arc_at m p = Inl Bad_Pointer) \<or>
         (p < length (Map_arcs m) \<and> Arc_at m' p = Inr (Map_arcs m' ! p)
            \<and> Arc_at m p = Inr (Map_arcs m ! p))"
  using assms by (simp add: Arc_at_def)

lemma Map__compare_arcs_left:
  assumes len: "length (Map_arcs m') = length (Map_arcs m)"
    and ids: "\<And>p. p < length (Map_arcs m) \<Longrightarrow>
                Arc_ids m' (Map_arcs m' ! p) = Arc_ids m (Map_arcs m ! p)"
  shows "Map__compare_arcs m' xs n ys = Map__compare_arcs m xs n ys"
proof (induction xs arbitrary: ys)
  case Nil
  show ?case by simp
next
  case (Cons x xs)
  show ?case
  proof (cases ys)
    case Nil
    then show ?thesis by simp
  next
    case ys: (Cons y ys')
    from Arc_at_agree[OF len, of x] show ?thesis
    proof (elim disjE conjE)
      assume "Arc_at m' x = Inl Bad_Pointer" "Arc_at m x = Inl Bad_Pointer"
      then show ?thesis using ys by simp
    next
      assume x: "x < length (Map_arcs m)" "Arc_at m' x = Inr (Map_arcs m' ! x)"
        "Arc_at m x = Inr (Map_arcs m ! x)"
      show ?thesis
        using ys x ids[OF x(1)]
        by (simp add: Arc__compare_by_ids Cons.IH split: sum.splits)
    qed
  qed
qed

lemma Map__compare_arcs_right:
  assumes len: "length (Map_arcs m') = length (Map_arcs m)"
    and ids: "\<And>p. p < length (Map_arcs m) \<Longrightarrow>
                Arc_ids m' (Map_arcs m' ! p) = Arc_ids m (Map_arcs m ! p)"
  shows "Map__compare_arcs n ys m' xs = Map__compare_arcs n ys m xs"
proof (induction ys arbitrary: xs)
  case Nil
  show ?case by simp
next
  case (Cons y ys)
  show ?case
  proof (cases xs)
    case Nil
    then show ?thesis by simp
  next
    case xs: (Cons x xs')
    from Arc_at_agree[OF len, of x] show ?thesis
    proof (elim disjE conjE)
      assume "Arc_at m' x = Inl Bad_Pointer" "Arc_at m x = Inl Bad_Pointer"
      then show ?thesis using xs by (simp split: sum.splits)
    next
      assume x: "x < length (Map_arcs m)" "Arc_at m' x = Inr (Map_arcs m' ! x)"
        "Arc_at m x = Inr (Map_arcs m ! x)"
      show ?thesis
        using xs x ids[OF x(1)]
        by (simp add: Arc__compare_by_ids Cons.IH split: sum.splits)
    qed
  qed
qed

lemma Arc_ids_cong:
  "Map_tags m' = Map_tags m \<Longrightarrow> Arc_from_tag a' = Arc_from_tag a \<Longrightarrow> Arc_to_tag a' = Arc_to_tag a
     \<Longrightarrow> Arc_ids m' a' = Arc_ids m a"
  by (simp add: Arc_ids_def Tag_id_ref_def Tag_ref_def Tag_at_def split: option.splits)

lemma same_shape_ids:
  assumes "Map_tags m' = Map_tags m"
    "map Arc_from_tag (Map_arcs m') = map Arc_from_tag (Map_arcs m)"
    "map Arc_to_tag (Map_arcs m') = map Arc_to_tag (Map_arcs m)"
  shows "length (Map_arcs m') = length (Map_arcs m)"
    and "\<And>p. p < length (Map_arcs m) \<Longrightarrow> Arc_ids m' (Map_arcs m' ! p) = Arc_ids m (Map_arcs m ! p)"
proof -
  show len: "length (Map_arcs m') = length (Map_arcs m)"
    using assms(2) by (rule map_eq_imp_length_eq)
  fix p assume p: "p < length (Map_arcs m)"
  have "Arc_from_tag (Map_arcs m' ! p) = Arc_from_tag (Map_arcs m ! p)"
    using assms(2) p len by (metis nth_map)
  moreover have "Arc_to_tag (Map_arcs m' ! p) = Arc_to_tag (Map_arcs m ! p)"
    using assms(3) p len by (metis nth_map)
  ultimately show "Arc_ids m' (Map_arcs m' ! p) = Arc_ids m (Map_arcs m ! p)"
    using assms(1) by (intro Arc_ids_cong)
qed

lemma Map__compare_tags_refl:
  assumes "\<forall>p \<in> set xs. p < length (Map_tags m)" "Map_tags m' = Map_tags m"
  shows "Map__compare_tags m xs m' xs = Inr 0"
  using assms(1)
proof (induction xs)
  case Nil
  show ?case by simp
next
  case (Cons x xs)
  then show ?case
    by (simp add: Tag_at_def assms(2) Tag__compare_def Unsigned__compare_def)
qed

lemma Arc_ok_ids:
  "Arc_ok m a \<Longrightarrow> \<exists>i j. Arc_ids m a = (Some i, Some j)"
  by (auto simp: Arc_ok_def Arc_ids_def Tag_id_ref_def Tag_ref_def Tag_at_def split: option.splits)

lemma Map__compare_arcs_refl:
  assumes "\<forall>p \<in> set xs. p < length (Map_arcs m)" "\<forall>a \<in> set (Map_arcs m). Arc_ok m a"
    and len: "length (Map_arcs m') = length (Map_arcs m)"
    and ids: "\<And>p. p < length (Map_arcs m) \<Longrightarrow>
                Arc_ids m' (Map_arcs m' ! p) = Arc_ids m (Map_arcs m ! p)"
  shows "Map__compare_arcs m xs m' xs = Inr 0"
  using assms(1)
proof (induction xs)
  case Nil
  show ?case by simp
next
  case (Cons x xs)
  then have x: "x < length (Map_arcs m)" by simp
  with assms(2) have "Arc_ok m (Map_arcs m ! x)" by simp
  then obtain i j where ij: "Arc_ids m (Map_arcs m ! x) = (Some i, Some j)"
    by (auto dest: Arc_ok_ids)
  with ids[OF x] have "Arc__compare m (Map_arcs m ! x) m' (Map_arcs m' ! x) = Inr 0"
    by (simp add: Arc__compare_same_ids)
  with Cons x len show ?case
    by (simp add: Arc_at_def)
qed


section \<open>Evaluating the routines on the example maps\<close>

lemmas eval_defs = Map__new_def Arc__new_def Arc__read_def Map__tag_lookup_def Tag__create_def
  Map__distance_per_pixel_def Arc__create_def Arc__create_load_def Tag_at_def Arc_at_def
  store_Tag_def store_Arc_def Tag__arc_append_def Map__arc_append_def Let_def
  Map__update_def Map__update_init_def Map__update_origin_def Tag__compare_at_def Tag__compare_def
  Unsigned__compare_def Arc__distance_compare_def Map__update_step_def Map__update_arc_def
  Map__update_tree_def Map__update_grow_def Tag__update_via_arc_def Tag_ref_def Tag_ptr_def
  Double__angle_normalize_def Double__compare_def Unsigned__minimum_def

lemma ceiling_minus_half [simp]: "\<lceil>- (1 / 2) :: real\<rceil> = 0"
  by (simp add: ceiling_eq_iff)

lemmas ingest_defs = Map__arc_update_def Map__arc_lookup_def Arc__update_def Arc__equal_def
  Arc__compare_def example_camera_centre_def example_camera_at_def example_image_def
  Double__arc_tangent2_def

lemma example_map_12_read: "Arc__read Map__new example_element_12 = Inr (example_map_12, 0)"
  by (simp add: eval_defs example_element_12_def example_map_12_def)

lemma example_map_12_update: "Map__update example_map_12 = Inr example_map_12_updated"
  by (simp add: eval_defs example_map_12_def example_map_12_updated_def)

lemma All_less_Suc_unfold: "(\<forall>p < Suc n. P p) \<longleftrightarrow> P n \<and> (\<forall>p < n. P p)"
  by (auto simp: less_Suc_eq)

lemmas wf_defs = Map_wf_def Heap_ok_def Arc_ok_def Tag_arcs_ok_def Tags_table_ok_def
  All_less_Suc_unfold

lemma example_map_12_wf: "Map_wf example_map_12"
  by (simp add: wf_defs example_map_12_def)

section \<open>Map comparison\<close>

text \<open>
  Claim C5 (Map comparison order). The claim: \<open>Map__compare\<close> compares the marker lists
  first and returns nonzero whenever they differ, whatever the edge lists are. The
  source assigns the size comparison of the Arc lists to \<open>result\<close> without looking at
  what the Tag pass left there, so the Tag pass never reaches the caller: a map with
  one marker and the empty map compare as 0, and so do two maps whose only markers
  have the ids 1 and 2, although the Tag pass itself yields -1 on them.
\<close>

theorem Map__compare_discards_tags:
  "Map__compare (fst (Map__tag_lookup Map__new 1)) Map__new = Inr 0 \<and>
   Map__compare (fst (Map__tag_lookup Map__new 1)) (fst (Map__tag_lookup Map__new 2)) = Inr 0 \<and>
   Map_all_tags (fst (Map__tag_lookup Map__new 1)) = [0] \<and>
   Map_all_tags Map__new = [] \<and>
   Map__compare_tags (fst (Map__tag_lookup Map__new 1)) [0]
     (fst (Map__tag_lookup Map__new 2)) [0] = Inr (- 1)"
  by (simp add: Map__compare_def eval_defs)

text \<open>
  Claim C10 (Arc identity is id-only). \<open>Arc__compare\<close>, \<open>Arc__equal\<close> and \<open>Arc__hash\<close>
  depend on the ids of the two endpoints only: they do not change when distance, twists,
  goodness, \<open>in_tree\<close> or \<open>visit\<close> of an Arc change, and two Arcs over the same pair of
  ids are equal and have the same hash. Hence \<open>Map__compare\<close> gives the same result
  for two maps that differ in the measured fields of their Arcs only, against any third
  map, and compares two such maps as equal (0) when they are well formed.
\<close>

theorem Arc_identity_by_ids:
  "Arc_ids m (a\<lparr>Arc_distance := d, Arc_from_twist := ft, Arc_goodness := g, Arc_in_tree := it,
              Arc_to_twist := tt, Arc_visit := v\<rparr>) = Arc_ids m a \<and>
   (Arc_ids m1' a1' = Arc_ids m1 a1 \<and> Arc_ids m2' a2' = Arc_ids m2 a2 \<longrightarrow>
      Arc__compare m1' a1' m2' a2' = Arc__compare m1 a1 m2 a2) \<and>
   (Arc_ids m a' = Arc_ids m a \<and> Arc_ids m b' = Arc_ids m b \<longrightarrow>
      Arc__equal m a' b' = Arc__equal m a b) \<and>
   (Arc_ids m a' = Arc_ids m a \<longrightarrow> Arc__hash m a' = Arc__hash m a) \<and>
   (Arc_ids m a = (Some i, Some j) \<and> Arc_ids m b = (Some i, Some j) \<longrightarrow>
      Arc__equal m a b = Inr True \<and> Arc__hash m a = Arc__hash m b) \<and>
   (Map_tags m' = Map_tags m \<and> Map_all_tags m' = Map_all_tags m \<and>
    Map_all_arcs m' = Map_all_arcs m \<and>
    map Arc_from_tag (Map_arcs m') = map Arc_from_tag (Map_arcs m) \<and>
    map Arc_to_tag (Map_arcs m') = map Arc_to_tag (Map_arcs m) \<longrightarrow>
      Map__compare m' n = Map__compare m n \<and> Map__compare n m' = Map__compare n m \<and>
      (Map_wf m \<longrightarrow> Map__compare m m' = Inr 0))"
proof (intro conjI impI)
  show "Arc_ids m (a\<lparr>Arc_distance := d, Arc_from_twist := ft, Arc_goodness := g,
          Arc_in_tree := it, Arc_to_twist := tt, Arc_visit := v\<rparr>) = Arc_ids m a"
    by (simp add: Arc_ids_def)
next
  assume "Arc_ids m1' a1' = Arc_ids m1 a1 \<and> Arc_ids m2' a2' = Arc_ids m2 a2"
  then show "Arc__compare m1' a1' m2' a2' = Arc__compare m1 a1 m2 a2"
    by (simp add: Arc__compare_by_ids)
next
  assume "Arc_ids m a' = Arc_ids m a \<and> Arc_ids m b' = Arc_ids m b"
  then show "Arc__equal m a' b' = Arc__equal m a b"
    by (simp add: Arc__equal_def Arc__compare_by_ids)
next
  assume "Arc_ids m a' = Arc_ids m a"
  then show "Arc__hash m a' = Arc__hash m a"
    by (simp add: Arc__hash_by_ids)
next
  assume "Arc_ids m a = (Some i, Some j) \<and> Arc_ids m b = (Some i, Some j)"
  then show "Arc__equal m a b = Inr True"
    by (simp add: Arc__equal_def Arc__compare_same_ids)
next
  assume "Arc_ids m a = (Some i, Some j) \<and> Arc_ids m b = (Some i, Some j)"
  then show "Arc__hash m a = Arc__hash m b"
    by (simp add: Arc__hash_by_ids)
next
  assume h: "Map_tags m' = Map_tags m \<and> Map_all_tags m' = Map_all_tags m \<and>
    Map_all_arcs m' = Map_all_arcs m \<and>
    map Arc_from_tag (Map_arcs m') = map Arc_from_tag (Map_arcs m) \<and>
    map Arc_to_tag (Map_arcs m') = map Arc_to_tag (Map_arcs m)"
  note s = same_shape_ids[of m' m]
  from h have len: "length (Map_arcs m') = length (Map_arcs m)"
    by (intro s(1)) simp_all
  from h have ids: "\<And>p. p < length (Map_arcs m) \<Longrightarrow>
      Arc_ids m' (Map_arcs m' ! p) = Arc_ids m (Map_arcs m ! p)"
    by (intro s(2)) simp_all
  from h have tags: "Map_tags m' = Map_tags m" by simp
  show "Map__compare m' n = Map__compare m n"
    using h
    by (simp add: Map__compare_def Let_def Map__compare_tags_left[OF tags]
        Map__compare_arcs_left[OF len ids])
  show "Map__compare n m' = Map__compare n m"
    using h
    by (simp add: Map__compare_def Let_def Map__compare_tags_right[OF tags]
        Map__compare_arcs_right[OF len ids])
  assume wf: "Map_wf m"
  have 1: "Map__compare_tags m (Map_all_tags m) m' (Map_all_tags m) = Inr 0"
    using wf tags by (intro Map__compare_tags_refl) (simp_all add: Map_wf_def)
  have 2: "Map__compare_arcs m (Map_all_arcs m) m' (Map_all_arcs m) = Inr 0"
    using wf len ids by (intro Map__compare_arcs_refl) (simp_all add: Map_wf_def Heap_ok_def)
  show "Map__compare m m' = Inr 0"
    using h 1 2 by (simp add: Map__compare_def Let_def Unsigned__compare_def)
qed

theorem Arc_identity_by_ids_witness:
  "Map_wf example_map_12 \<and>
   Map_arcs example_map_12_remeasured \<noteq> Map_arcs example_map_12 \<and>
   Map__compare example_map_12 example_map_12_remeasured = Inr 0 \<and>
   Arc__equal example_map_12 (Map_arcs example_map_12 ! 0)
     (Map_arcs example_map_12_remeasured ! 0) = Inr True \<and>
   Arc__hash example_map_12 (Map_arcs example_map_12 ! 0) =
     Arc__hash example_map_12 (Map_arcs example_map_12_remeasured ! 0)"
proof -
  note c5 = Arc_identity_by_ids[THEN conjunct2, THEN conjunct2, THEN conjunct2,
      THEN conjunct2, THEN conjunct1, THEN mp]
  note c6 = Arc_identity_by_ids[THEN conjunct2, THEN conjunct2, THEN conjunct2,
      THEN conjunct2, THEN conjunct2, THEN mp]
  have ids: "Arc_ids example_map_12 (Map_arcs example_map_12 ! 0) = (Some 1, Some 2) \<and>
    Arc_ids example_map_12 (Map_arcs example_map_12_remeasured ! 0) = (Some 1, Some 2)"
    by (simp add: Arc_ids_def Tag_id_ref_def Tag_ref_def Tag_at_def example_map_12_def
        example_map_12_remeasured_def)
  have shape: "Map_tags example_map_12_remeasured = Map_tags example_map_12 \<and>
    Map_all_tags example_map_12_remeasured = Map_all_tags example_map_12 \<and>
    Map_all_arcs example_map_12_remeasured = Map_all_arcs example_map_12 \<and>
    map Arc_from_tag (Map_arcs example_map_12_remeasured) =
       map Arc_from_tag (Map_arcs example_map_12) \<and>
    map Arc_to_tag (Map_arcs example_map_12_remeasured) =
       map Arc_to_tag (Map_arcs example_map_12)"
    by (simp add: example_map_12_def example_map_12_remeasured_def)
  have diff: "Map_arcs example_map_12_remeasured \<noteq> Map_arcs example_map_12"
    by (simp add: example_map_12_def example_map_12_remeasured_def)
  note e = c5[OF ids]
  note c = c6[OF shape, THEN conjunct2, THEN conjunct2, THEN mp, OF example_map_12_wf]
  from e c diff example_map_12_wf show ?thesis by blast
qed

section \<open>The loop of pose propagation\<close>

lemma List__insert_ok:
  assumes "\<And>y. y \<in> set ys \<Longrightarrow> \<exists>c. cmp x y = Inr c"
  shows "\<exists>zs. List__insert cmp x ys = Inr zs"
  using assms
proof (induction ys)
  case Nil
  show ?case by simp
next
  case (Cons y ys)
  from Cons.prems[of y] obtain c where c: "cmp x y = Inr c" by auto
  from Cons.IH Cons.prems obtain zs where zs: "List__insert cmp x ys = Inr zs" by auto
  show ?case using c zs by simp
qed

lemma List__sort_ok:
  assumes "\<And>x y. x \<in> set xs \<Longrightarrow> y \<in> set xs \<Longrightarrow> \<exists>c. cmp x y = Inr c"
  shows "\<exists>ys. List__sort cmp xs = Inr ys"
  using assms
proof (induction xs)
  case Nil
  show ?case by simp
next
  case (Cons x xs)
  from Cons.IH Cons.prems obtain ys where ys: "List__sort cmp xs = Inr ys" by auto
  from List__sort_set[OF ys] have s: "set ys = set xs" by simp
  have "\<exists>zs. List__insert cmp x ys = Inr zs"
    using Cons.prems s by (intro List__insert_ok) auto
  with ys show ?case by simp
qed

lemma map_update_same:
  assumes "f x = f (xs ! i)"
  shows "map f (xs[i := x]) = map f xs"
  using assms by (intro nth_equalityI) (simp_all add: nth_list_update_if)

lemma map_eq_nth:
  assumes "map f xs = map f ys" "i < length ys"
  shows "f (xs ! i) = f (ys ! i)"
proof -
  from assms(1) have "length xs = length ys" by (rule map_eq_imp_length_eq)
  with assms show ?thesis by (metis nth_map)
qed

lemma Heap_ok_same_shape:
  assumes ok: "Heap_ok m"
    and ta: "map Tag_arcs (Map_tags m') = map Tag_arcs (Map_tags m)"
    and fr: "map Arc_from_tag (Map_arcs m') = map Arc_from_tag (Map_arcs m)"
    and to: "map Arc_to_tag (Map_arcs m') = map Arc_to_tag (Map_arcs m)"
  shows "Heap_ok m'"
proof -
  have lt: "length (Map_tags m') = length (Map_tags m)"
    using ta by (rule map_eq_imp_length_eq)
  have la: "length (Map_arcs m') = length (Map_arcs m)"
    using fr by (rule map_eq_imp_length_eq)
  have 1: "Arc_ok m' a" if "a \<in> set (Map_arcs m')" for a
  proof -
    from that obtain i where i: "i < length (Map_arcs m')" "a = Map_arcs m' ! i"
      by (auto simp: in_set_conv_nth)
    with la ok have "Arc_ok m (Map_arcs m ! i)" by (simp add: Heap_ok_def)
    moreover have "Arc_from_tag a = Arc_from_tag (Map_arcs m ! i)"
      "Arc_to_tag a = Arc_to_tag (Map_arcs m ! i)"
      using i la map_eq_nth[OF fr] map_eq_nth[OF to] by auto
    ultimately show ?thesis by (simp add: Arc_ok_def lt split: option.splits)
  qed
  have 2: "Tag_arcs_ok m' p (Tag_arcs (Map_tags m' ! p))" if "p < length (Map_tags m')" for p
  proof -
    from that lt have p: "p < length (Map_tags m)" by simp
    with ok have t: "Tag_arcs_ok m p (Tag_arcs (Map_tags m ! p))" by (simp add: Heap_ok_def)
    have e: "Tag_arcs (Map_tags m' ! p) = Tag_arcs (Map_tags m ! p)"
      using map_eq_nth[OF ta p] .
    show ?thesis
      unfolding e Tag_arcs_ok_def
    proof (intro ballI)
      fix arc assume "arc \<in> set (Tag_arcs (Map_tags m ! p))"
      with t have a: "arc < length (Map_arcs m)"
        "Arc_from_tag (Map_arcs m ! arc) = Some p \<or> Arc_to_tag (Map_arcs m ! arc) = Some p"
        by (auto simp: Tag_arcs_ok_def)
      then show "arc < length (Map_arcs m') \<and>
        (Arc_from_tag (Map_arcs m' ! arc) = Some p \<or> Arc_to_tag (Map_arcs m' ! arc) = Some p)"
        using la map_eq_nth[OF fr a(1)] map_eq_nth[OF to a(1)] by simp
    qed
  qed
  from 1 2 show ?thesis by (simp add: Heap_ok_def)
qed

lemma Arc_ok_D:
  assumes "Arc_ok m a"
  obtains f t where "Arc_from_tag a = Some f" "Arc_to_tag a = Some t"
    "f < length (Map_tags m)" "t < length (Map_tags m)"
  using assms by (auto simp: Arc_ok_def split: option.splits)

lemma Heap_ok_Arc_ok: "Heap_ok m \<Longrightarrow> arc < length (Map_arcs m) \<Longrightarrow> Arc_ok m (Map_arcs m ! arc)"
  by (simp add: Heap_ok_def)

lemma Arc__distance_compare_ok:
  assumes "Heap_ok m" "arc1 < length (Map_arcs m)" "arc2 < length (Map_arcs m)"
  shows "\<exists>c. Arc__distance_compare m arc1 arc2 = Inr c"
proof -
  from Heap_ok_Arc_ok[OF assms(1,2)] obtain f1 t1 where
    1: "Arc_from_tag (Map_arcs m ! arc1) = Some f1" "Arc_to_tag (Map_arcs m ! arc1) = Some t1"
       "f1 < length (Map_tags m)" "t1 < length (Map_tags m)"
    by (rule Arc_ok_D)
  from Heap_ok_Arc_ok[OF assms(1,3)] obtain f2 t2 where
    2: "Arc_from_tag (Map_arcs m ! arc2) = Some f2" "Arc_to_tag (Map_arcs m ! arc2) = Some t2"
       "f2 < length (Map_tags m)" "t2 < length (Map_tags m)"
    by (rule Arc_ok_D)
  show ?thesis
    using assms(2,3) 1 2
    by (simp add: Arc__distance_compare_def Arc_at_def Tag_ref_def Tag_at_def Let_def)
qed

lemma Tag__compare_at_ok:
  "p < length (Map_tags m) \<Longrightarrow> q < length (Map_tags m) \<Longrightarrow> \<exists>c. Tag__compare_at m p q = Inr c"
  by (simp add: Tag__compare_at_def Tag_at_def)


lemma Map__update_grow_result:
  assumes "Map__update_grow visit m new_tag known_tag arc = Inr m'"
  shows "new_tag < length (Map_tags m)"
    and "Map_arcs m' = Map_arcs m"
    and "\<exists>T. Map_tags m' = (Map_tags m)[new_tag := T] \<and>
           Tag_arcs T = Tag_arcs (Map_tags m ! new_tag) \<and> Tag_visit T = visit"
    and "Map_pending_arcs m' = Map_pending_arcs m @ Tag_arcs (Map_tags m ! new_tag)"
proof -
  define A where "A = (Map_tags m ! new_tag)
                    \<lparr>Tag_hop_count := Tag_hop_count (Map_tags m ! known_tag) + 1\<rparr>"
  from assms obtain m3 where u: "Tag__update_via_arc m3 new_tag arc = Inr m'"
    and e: "Map_arcs m3 = Map_arcs m"
      "Map_tags m3 = (Map_tags m)[new_tag := ((Map_tags m)[new_tag := A] ! new_tag)\<lparr>Tag_visit := visit\<rparr>]"
      "Map_pending_arcs m3 = Map_pending_arcs m @ Tag_arcs ((Map_tags m)[new_tag := A] ! new_tag)"
    by (simp add: Map__update_grow_def Let_def store_Tag_def A_def)
  have len3: "length (Map_tags m3) = length (Map_tags m)"
    by (simp add: e)
  from Tag__update_via_arc_frame[OF u] len3 obtain x y w where
    n: "new_tag < length (Map_tags m)" and
    m': "m' = store_Tag m3 new_tag ((Map_tags m3 ! new_tag)\<lparr>Tag_x := x, Tag_y := y, Tag_twist := w\<rparr>)"
    by auto
  show "new_tag < length (Map_tags m)" by (rule n)
  show "Map_arcs m' = Map_arcs m"
    by (simp add: m' e store_Tag_def)
  show "Map_pending_arcs m' = Map_pending_arcs m @ Tag_arcs (Map_tags m ! new_tag)"
    using n by (simp add: m' e store_Tag_def A_def)
  show "\<exists>T. Map_tags m' = (Map_tags m)[new_tag := T] \<and>
           Tag_arcs T = Tag_arcs (Map_tags m ! new_tag) \<and> Tag_visit T = visit"
    using n
    by (intro exI[of _ "(Map_tags m ! new_tag)
          \<lparr>Tag_hop_count := Tag_hop_count (Map_tags m ! known_tag) + 1,
             Tag_visit := visit, Tag_x := x, Tag_y := y, Tag_twist := w\<rparr>"])
       (simp add: m' e store_Tag_def A_def)
qed

lemma Map__update_grow_is_changed:
  assumes "Map__update_grow visit m new_tag known_tag arc = Inr m'"
  shows "Map_all_tags m' = Map_all_tags m \<and> Map_visit m' = Map_visit m"
proof -
  from assms obtain m3 where u: "Tag__update_via_arc m3 new_tag arc = Inr m'"
    and e: "Map_all_tags m3 = Map_all_tags m" "Map_visit m3 = Map_visit m"
    by (simp add: Map__update_grow_def Let_def store_Tag_def)
  from Tag__update_via_arc_frame[OF u] e show ?thesis
    by (auto simp: store_Tag_def)
qed

lemma Map__update_tree_result:
  assumes "Map__update_tree visit m from_tag to_tag arc fnew tnew = Inr m'"
  shows "\<exists>new_tag T. (new_tag = from_tag \<and> fnew \<or> new_tag = to_tag \<and> \<not> fnew) \<and>
     new_tag < length (Map_tags m) \<and> arc < length (Map_arcs m) \<and>
     Map_arcs m' = (Map_arcs m)[arc := (Map_arcs m ! arc)\<lparr>Arc_in_tree := True\<rparr>] \<and>
     Map_tags m' = (Map_tags m)[new_tag := T] \<and>
     Tag_arcs T = Tag_arcs (Map_tags m ! new_tag) \<and> Tag_visit T = visit \<and>
     set (Map_pending_arcs m') = set (Map_pending_arcs m) \<union> set (Tag_arcs (Map_tags m ! new_tag))"
proof -
  let ?g = "(if fnew then (if tnew then Inl Assert_Failed
                          else Map__update_grow visit m from_tag to_tag arc)
             else (if fnew then Inl Assert_Failed
                   else Map__update_grow visit m to_tag from_tag arc))"
  from assms[unfolded Map__update_tree_def Let_def]
  obtain m2 where g: "?g = Inr m2"
    and r2: "bindE (Arc_at m2 arc) (\<lambda>a2.
       bindE (List__sort (Arc__distance_compare (store_Arc m2 arc (a2\<lparr>Arc_in_tree := True\<rparr>)))
                (Map_pending_arcs (store_Arc m2 arc (a2\<lparr>Arc_in_tree := True\<rparr>))))
         (\<lambda>sorted. Inr ((store_Arc m2 arc (a2\<lparr>Arc_in_tree := True\<rparr>))
                         \<lparr>Map_pending_arcs := sorted\<rparr>))) = Inr m'"
    by (rule bindE_InrE)
  from r2 obtain a2 where a2: "Arc_at m2 arc = Inr a2"
    and r3: "bindE (List__sort (Arc__distance_compare (store_Arc m2 arc (a2\<lparr>Arc_in_tree := True\<rparr>)))
                (Map_pending_arcs (store_Arc m2 arc (a2\<lparr>Arc_in_tree := True\<rparr>))))
         (\<lambda>sorted. Inr ((store_Arc m2 arc (a2\<lparr>Arc_in_tree := True\<rparr>))
                         \<lparr>Map_pending_arcs := sorted\<rparr>)) = Inr m'"
    by (rule bindE_InrE)
  from r3 obtain sorted where
    srt: "List__sort (Arc__distance_compare (store_Arc m2 arc (a2\<lparr>Arc_in_tree := True\<rparr>)))
               (Map_pending_arcs (store_Arc m2 arc (a2\<lparr>Arc_in_tree := True\<rparr>))) = Inr sorted"
    and m'0: "Inr ((store_Arc m2 arc (a2\<lparr>Arc_in_tree := True\<rparr>))\<lparr>Map_pending_arcs := sorted\<rparr>)
              = (Inr m' :: error + Map__Struct)"
    by (rule bindE_InrE)
  from m'0 have m': "m' = (store_Arc m2 arc (a2\<lparr>Arc_in_tree := True\<rparr>))\<lparr>Map_pending_arcs := sorted\<rparr>"
    by simp
  define new_tag where "new_tag = (if fnew then from_tag else to_tag)"
  define known_tag where "known_tag = (if fnew then to_tag else from_tag)"
  from g have g': "Map__update_grow visit m new_tag known_tag arc = Inr m2"
    by (auto simp: new_tag_def known_tag_def split: if_splits)
  note r = Map__update_grow_result[OF g']
  from r(3) obtain T where T: "Map_tags m2 = (Map_tags m)[new_tag := T]"
    "Tag_arcs T = Tag_arcs (Map_tags m ! new_tag)" "Tag_visit T = visit" by blast
  from a2 have v: "arc < length (Map_arcs m2)" "a2 = Map_arcs m2 ! arc"
    by (auto dest: Arc_at_InrD)
  from List__sort_set[OF srt] have s: "set sorted = set (Map_pending_arcs m2)"
    by (simp add: store_Arc_def)
  have "(new_tag = from_tag \<and> fnew \<or> new_tag = to_tag \<and> \<not> fnew)"
    by (simp add: new_tag_def)
  moreover have "Map_arcs m' = (Map_arcs m)[arc := (Map_arcs m ! arc)\<lparr>Arc_in_tree := True\<rparr>]"
    using v r(2) by (simp add: m' store_Arc_def)
  moreover have "Map_tags m' = (Map_tags m)[new_tag := T]"
    using T(1) by (simp add: m' store_Arc_def)
  moreover have "set (Map_pending_arcs m') =
      set (Map_pending_arcs m) \<union> set (Tag_arcs (Map_tags m ! new_tag))"
    using s r(4) by (simp add: m')
  ultimately show ?thesis
    using r(1) v(1) r(2) T(2,3) by auto
qed


lemma Tag_ptr_InrD: "Tag_ptr m q = Inr p \<Longrightarrow> q = Some p \<and> p < length (Map_tags m)"
  by (auto simp: Tag_ptr_def split: option.splits if_splits)

lemma Loop_rel_refl: "Loop_rel visit m m"
  by (simp add: Loop_rel_def)

lemma Loop_rel_lengths:
  assumes "Loop_rel visit m m'"
  shows "length (Map_tags m') = length (Map_tags m)" "length (Map_arcs m') = length (Map_arcs m)"
  using assms unfolding Loop_rel_def by (auto dest: map_eq_imp_length_eq)

lemma Loop_rel_trans:
  assumes ab: "Loop_rel visit a b" and bc: "Loop_rel visit b c"
  shows "Loop_rel visit a c"
proof -
  note la = Loop_rel_lengths[OF ab]
  have ta: "map Tag_arcs (Map_tags b) = map Tag_arcs (Map_tags a)"
    using ab by (simp add: Loop_rel_def)
  have keep_ab: "\<And>p. p < length (Map_tags a) \<Longrightarrow> Tag_visit (Map_tags a ! p) = visit \<Longrightarrow>
      Map_tags b ! p = Map_tags a ! p"
    using ab by (simp add: Loop_rel_def)
  have keep_bc: "\<And>p. p < length (Map_tags b) \<Longrightarrow> Tag_visit (Map_tags b ! p) = visit \<Longrightarrow>
      Map_tags c ! p = Map_tags b ! p"
    using bc by (simp add: Loop_rel_def)
  have pend_ab: "\<And>arc. arc \<in> set (Map_pending_arcs b) \<Longrightarrow> arc \<in> set (Map_pending_arcs a) \<or>
         (\<exists>p < length (Map_tags a). Tag_visit (Map_tags b ! p) = visit \<and>
            arc \<in> set (Tag_arcs (Map_tags a ! p)))"
    using ab by (simp add: Loop_rel_def)
  have pend_bc: "\<And>arc. arc \<in> set (Map_pending_arcs c) \<Longrightarrow> arc \<in> set (Map_pending_arcs b) \<or>
         (\<exists>p < length (Map_tags b). Tag_visit (Map_tags c ! p) = visit \<and>
            arc \<in> set (Tag_arcs (Map_tags b ! p)))"
    using bc by (simp add: Loop_rel_def)
  have keep: "Map_tags c ! p = Map_tags a ! p"
    if "p < length (Map_tags a)" "Tag_visit (Map_tags a ! p) = visit" for p
    using that keep_ab[OF that] keep_bc[of p] la by simp
  have pend: "arc \<in> set (Map_pending_arcs a) \<or>
         (\<exists>p < length (Map_tags a). Tag_visit (Map_tags c ! p) = visit \<and>
            arc \<in> set (Tag_arcs (Map_tags a ! p)))"
    if "arc \<in> set (Map_pending_arcs c)" for arc
  proof -
    from pend_bc[OF that] show ?thesis
    proof
      assume "arc \<in> set (Map_pending_arcs b)"
      from pend_ab[OF this] show ?thesis
      proof
        assume "arc \<in> set (Map_pending_arcs a)"
        then show ?thesis by simp
      next
        assume "\<exists>p < length (Map_tags a). Tag_visit (Map_tags b ! p) = visit \<and>
            arc \<in> set (Tag_arcs (Map_tags a ! p))"
        then obtain p where p: "p < length (Map_tags a)" "Tag_visit (Map_tags b ! p) = visit"
          "arc \<in> set (Tag_arcs (Map_tags a ! p))" by blast
        from keep_bc[of p] p la have "Tag_visit (Map_tags c ! p) = visit" by simp
        with p show ?thesis by blast
      qed
    next
      assume "\<exists>p < length (Map_tags b). Tag_visit (Map_tags c ! p) = visit \<and>
            arc \<in> set (Tag_arcs (Map_tags b ! p))"
      then obtain p where p: "p < length (Map_tags b)" "Tag_visit (Map_tags c ! p) = visit"
          "arc \<in> set (Tag_arcs (Map_tags b ! p))" by blast
      from p(1) la have pa: "p < length (Map_tags a)" by simp
      from map_eq_nth[OF ta pa] p(3) have "arc \<in> set (Tag_arcs (Map_tags a ! p))" by simp
      with pa p(2) show ?thesis by blast
    qed
  qed
  show ?thesis
    unfolding Loop_rel_def
  proof (intro conjI allI impI ballI)
    show "map Tag_arcs (Map_tags c) = map Tag_arcs (Map_tags a)"
      using ab bc by (simp add: Loop_rel_def)
    show "map Arc_from_tag (Map_arcs c) = map Arc_from_tag (Map_arcs a)"
      using ab bc by (simp add: Loop_rel_def)
    show "map Arc_to_tag (Map_arcs c) = map Arc_to_tag (Map_arcs a)"
      using ab bc by (simp add: Loop_rel_def)
  next
    fix p assume "p < length (Map_tags a)" "Tag_visit (Map_tags a ! p) = visit"
    then show "Map_tags c ! p = Map_tags a ! p" by (rule keep)
  next
    fix arc assume "arc \<in> set (Map_pending_arcs c)"
    then show "arc \<in> set (Map_pending_arcs a) \<or>
         (\<exists>p < length (Map_tags a). Tag_visit (Map_tags c ! p) = visit \<and>
            arc \<in> set (Tag_arcs (Map_tags a ! p)))" by (rule pend)
  qed
qed

lemma Map__update_arc_rel:
  assumes r: "Map__update_arc visit m arc a = Inr m'" and a: "Arc_at m arc = Inr a"
  shows "Loop_rel visit m m'"
proof -
  from a have v: "arc < length (Map_arcs m)" "a = Map_arcs m ! arc"
    by (auto dest: Arc_at_InrD)
  define m1 where "m1 = store_Arc m arc (a\<lparr>Arc_visit := visit\<rparr>)"
  have m1: "Map_tags m1 = Map_tags m" "Map_pending_arcs m1 = Map_pending_arcs m"
    "Map_arcs m1 = (Map_arcs m)[arc := a\<lparr>Arc_visit := visit\<rparr>]"
    by (simp_all add: m1_def store_Arc_def)
  from r[unfolded Map__update_arc_def Let_def, folded m1_def]
  obtain from_tag where f: "Tag_ptr m1 (Arc_from_tag a) = Inr from_tag"
    and r2: "bindE (Tag_ptr m1 (Arc_to_tag a)) (\<lambda>to_tag.
       if Tag_visit (Map_tags m1 ! from_tag) \<noteq> visit \<or> Tag_visit (Map_tags m1 ! to_tag) \<noteq> visit
       then Map__update_tree visit m1 from_tag to_tag arc
              (Tag_visit (Map_tags m1 ! from_tag) \<noteq> visit) (Tag_visit (Map_tags m1 ! to_tag) \<noteq> visit)
       else Inr (store_Arc m1 arc ((Map_arcs m1 ! arc)\<lparr>Arc_in_tree := False\<rparr>))) = Inr m'"
    by (rule bindE_InrE)
  from r2 obtain to_tag where t: "Tag_ptr m1 (Arc_to_tag a) = Inr to_tag"
    and r3: "(if Tag_visit (Map_tags m1 ! from_tag) \<noteq> visit \<or> Tag_visit (Map_tags m1 ! to_tag) \<noteq> visit
       then Map__update_tree visit m1 from_tag to_tag arc
              (Tag_visit (Map_tags m1 ! from_tag) \<noteq> visit) (Tag_visit (Map_tags m1 ! to_tag) \<noteq> visit)
       else Inr (store_Arc m1 arc ((Map_arcs m1 ! arc)\<lparr>Arc_in_tree := False\<rparr>))) = Inr m'"
    by (rule bindE_InrE)
  show ?thesis
  proof (cases "Tag_visit (Map_tags m1 ! from_tag) \<noteq> visit \<or> Tag_visit (Map_tags m1 ! to_tag) \<noteq> visit")
    case False
    with r3 have "m' = store_Arc m1 arc ((Map_arcs m1 ! arc)\<lparr>Arc_in_tree := False\<rparr>)" by simp
    then have e: "Map_tags m' = Map_tags m" "Map_pending_arcs m' = Map_pending_arcs m"
      "Map_arcs m' = (Map_arcs m)[arc := a\<lparr>Arc_visit := visit, Arc_in_tree := False\<rparr>]"
      using v(1) by (simp_all add: m1 store_Arc_def)
    show ?thesis
      unfolding Loop_rel_def e using v(2)
      by (simp add: map_update_same)
  next
    case True
    with r3 have "Map__update_tree visit m1 from_tag to_tag arc
              (Tag_visit (Map_tags m1 ! from_tag) \<noteq> visit) (Tag_visit (Map_tags m1 ! to_tag) \<noteq> visit) = Inr m'"
      by simp
    from Map__update_tree_result[OF this] obtain new_tag T where
      n: "new_tag = from_tag \<and> Tag_visit (Map_tags m1 ! from_tag) \<noteq> visit \<or>
          new_tag = to_tag \<and> \<not> Tag_visit (Map_tags m1 ! from_tag) \<noteq> visit"
      and nl: "new_tag < length (Map_tags m1)"
      and ar: "Map_arcs m' = (Map_arcs m1)[arc := (Map_arcs m1 ! arc)\<lparr>Arc_in_tree := True\<rparr>]"
      and tg: "Map_tags m' = (Map_tags m1)[new_tag := T]"
      and T: "Tag_arcs T = Tag_arcs (Map_tags m1 ! new_tag)" "Tag_visit T = visit"
      and pd: "set (Map_pending_arcs m') =
                 set (Map_pending_arcs m1) \<union> set (Tag_arcs (Map_tags m1 ! new_tag))"
      by blast
    from n True have nv: "Tag_visit (Map_tags m ! new_tag) \<noteq> visit"
      by (auto simp: m1)
    have e: "Map_arcs m' = (Map_arcs m)[arc := a\<lparr>Arc_visit := visit, Arc_in_tree := True\<rparr>]"
      using ar v(1) by (simp add: m1)
    show ?thesis
      unfolding Loop_rel_def
    proof (intro conjI allI impI ballI)
      show "map Tag_arcs (Map_tags m') = map Tag_arcs (Map_tags m)"
        using T(1) by (simp add: tg m1 map_update_same)
      show "map Arc_from_tag (Map_arcs m') = map Arc_from_tag (Map_arcs m)"
        using v(2) by (simp add: e map_update_same)
      show "map Arc_to_tag (Map_arcs m') = map Arc_to_tag (Map_arcs m)"
        using v(2) by (simp add: e map_update_same)
    next
      fix p assume "p < length (Map_tags m)" "Tag_visit (Map_tags m ! p) = visit"
      with nv have "p \<noteq> new_tag" by auto
      then show "Map_tags m' ! p = Map_tags m ! p"
        by (simp add: tg m1)
    next
      fix arc' assume "arc' \<in> set (Map_pending_arcs m')"
      with pd have "arc' \<in> set (Map_pending_arcs m) \<or> arc' \<in> set (Tag_arcs (Map_tags m ! new_tag))"
        by (simp add: m1)
      moreover have "Tag_visit (Map_tags m' ! new_tag) = visit"
        using nl T(2) by (simp add: tg m1)
      ultimately show "arc' \<in> set (Map_pending_arcs m) \<or>
         (\<exists>p < length (Map_tags m). Tag_visit (Map_tags m' ! p) = visit \<and>
            arc' \<in> set (Tag_arcs (Map_tags m ! p)))"
        using nl by (auto simp: m1)
    qed
  qed
qed

lemma Map__update_step_rel:
  assumes "Map__update_step visit m = Inr m'"
  shows "Loop_rel visit m m'"
proof -
  let ?m = "m\<lparr>Map_pending_arcs := butlast (Map_pending_arcs m)\<rparr>"
  let ?arc = "last (Map_pending_arcs m)"
  from assms[unfolded Map__update_step_def Let_def]
  obtain a where a: "Arc_at ?m ?arc = Inr a"
    and r: "(if Arc_visit a \<noteq> visit then Map__update_arc visit ?m ?arc a else Inr ?m) = Inr m'"
    by (rule bindE_InrE)
  have pop: "Loop_rel visit m ?m"
    by (auto simp: Loop_rel_def dest: in_set_butlastD)
  show ?thesis
  proof (cases "Arc_visit a \<noteq> visit")
    case True
    with r have "Map__update_arc visit ?m ?arc a = Inr m'" by simp
    from Map__update_arc_rel[OF this a] pop show ?thesis
      by (rule Loop_rel_trans[rotated])
  next
    case False
    with r pop show ?thesis by simp
  qed
qed


lemma Loop_rel_Heap_ok:
  assumes "Heap_ok m" "Loop_rel visit m m'"
  shows "Heap_ok m'"
  using assms by (auto simp: Loop_rel_def intro: Heap_ok_same_shape)

lemma Heap_ok_Tag_arcs:
  assumes "Heap_ok m" "p < length (Map_tags m)" "arc \<in> set (Tag_arcs (Map_tags m ! p))"
  shows "arc < length (Map_arcs m)"
    and "Arc_from_tag (Map_arcs m ! arc) = Some p \<or> Arc_to_tag (Map_arcs m ! arc) = Some p"
  using assms by (auto simp: Heap_ok_def Tag_arcs_ok_def)

lemma Loop_rel_Frontier_ok:
  assumes ok: "Heap_ok m" and fr: "Frontier_ok visit m" and rel: "Loop_rel visit m m'"
  shows "Frontier_ok visit m'"
  unfolding Frontier_ok_def
proof
  fix arc assume arc: "arc \<in> set (Map_pending_arcs m')"
  note len = Loop_rel_lengths[OF rel]
  have fa: "map Arc_from_tag (Map_arcs m') = map Arc_from_tag (Map_arcs m)"
    and ta: "map Arc_to_tag (Map_arcs m') = map Arc_to_tag (Map_arcs m)"
    using rel by (simp_all add: Loop_rel_def)
  have keep: "\<And>p. p < length (Map_tags m) \<Longrightarrow> Tag_visit (Map_tags m ! p) = visit \<Longrightarrow>
      Map_tags m' ! p = Map_tags m ! p"
    using rel by (simp add: Loop_rel_def)
  have vis: "Tag_visited visit m' q" if "Tag_visited visit m q" for q
    using that keep len by (cases q) (auto simp: Tag_visited_def)
  from rel arc have "arc \<in> set (Map_pending_arcs m) \<or>
         (\<exists>p < length (Map_tags m). Tag_visit (Map_tags m' ! p) = visit \<and>
            arc \<in> set (Tag_arcs (Map_tags m ! p)))"
    by (simp add: Loop_rel_def)
  then show "Arc_reached visit m' arc"
  proof
    assume "arc \<in> set (Map_pending_arcs m)"
    with fr have r: "Arc_reached visit m arc" by (simp add: Frontier_ok_def)
    then have a: "arc < length (Map_arcs m)" by (simp add: Arc_reached_def)
    from r vis have "Tag_visited visit m' (Arc_from_tag (Map_arcs m ! arc)) \<or>
      Tag_visited visit m' (Arc_to_tag (Map_arcs m ! arc))"
      by (auto simp: Arc_reached_def)
    then show ?thesis
      using a len map_eq_nth[OF fa a] map_eq_nth[OF ta a] by (simp add: Arc_reached_def)
  next
    assume "\<exists>p < length (Map_tags m). Tag_visit (Map_tags m' ! p) = visit \<and>
            arc \<in> set (Tag_arcs (Map_tags m ! p))"
    then obtain p where p: "p < length (Map_tags m)" "Tag_visit (Map_tags m' ! p) = visit"
      "arc \<in> set (Tag_arcs (Map_tags m ! p))" by blast
    note h = Heap_ok_Tag_arcs[OF ok p(1) p(3)]
    have "Tag_visited visit m' (Some p)"
      using p len by (simp add: Tag_visited_def)
    with h show ?thesis
      using len map_eq_nth[OF fa h(1)] map_eq_nth[OF ta h(1)]
      by (auto simp: Arc_reached_def)
  qed
qed

lemma Tag__update_via_arc_ok:
  assumes "tag < length (Map_tags m)" "arc < length (Map_arcs m)" "Arc_ok m (Map_arcs m ! arc)"
  shows "\<exists>m'. Tag__update_via_arc m tag arc = Inr m'"
proof -
  from assms(3) obtain f t where
    "Arc_from_tag (Map_arcs m ! arc) = Some f" "Arc_to_tag (Map_arcs m ! arc) = Some t"
    "f < length (Map_tags m)" "t < length (Map_tags m)"
    by (rule Arc_ok_D)
  with assms(1,2) show ?thesis
    by (simp add: Tag__update_via_arc_def Arc_at_def Tag_at_def Tag_ref_def Let_def)
qed

lemma Map__update_grow_ok:
  assumes "new_tag < length (Map_tags m)" "arc < length (Map_arcs m)"
    "Arc_ok m (Map_arcs m ! arc)"
  shows "\<exists>m'. Map__update_grow visit m new_tag known_tag arc = Inr m'"
  unfolding Map__update_grow_def Let_def
  using assms
  by (intro Tag__update_via_arc_ok) (simp_all add: store_Tag_def Arc_ok_def split: option.splits)

lemma Map__update_tree_ok:
  assumes ok: "Heap_ok m" and f: "from_tag < length (Map_tags m)"
    and t: "to_tag < length (Map_tags m)" and a: "arc < length (Map_arcs m)"
    and nb: "\<not> (fnew \<and> tnew)"
    and pd: "\<forall>x \<in> set (Map_pending_arcs m). x < length (Map_arcs m)"
  shows "\<exists>m'. Map__update_tree visit m from_tag to_tag arc fnew tnew = Inr m'"
proof -
  define new_tag where "new_tag = (if fnew then from_tag else to_tag)"
  define known_tag where "known_tag = (if fnew then to_tag else from_tag)"
  have n: "new_tag < length (Map_tags m)"
    using f t by (simp add: new_tag_def)
  from Map__update_grow_ok[OF n a Heap_ok_Arc_ok[OF ok a]]
  obtain m2 where g: "Map__update_grow visit m new_tag known_tag arc = Inr m2" by blast
  note r = Map__update_grow_result[OF g]
  from r(3) obtain T where T: "Map_tags m2 = (Map_tags m)[new_tag := T]"
    "Tag_arcs T = Tag_arcs (Map_tags m ! new_tag)" by blast
  define m3 where "m3 = store_Arc m2 arc ((Map_arcs m2 ! arc)\<lparr>Arc_in_tree := True\<rparr>)"
  have ok3: "Heap_ok m3"
    using ok
  proof (rule Heap_ok_same_shape)
    show "map Tag_arcs (Map_tags m3) = map Tag_arcs (Map_tags m)"
      using T by (simp add: m3_def store_Arc_def map_update_same)
    show "map Arc_from_tag (Map_arcs m3) = map Arc_from_tag (Map_arcs m)"
      by (simp add: m3_def store_Arc_def r(2) map_update_same)
    show "map Arc_to_tag (Map_arcs m3) = map Arc_to_tag (Map_arcs m)"
      by (simp add: m3_def store_Arc_def r(2) map_update_same)
  qed
  have len3: "length (Map_arcs m3) = length (Map_arcs m)"
    by (simp add: m3_def store_Arc_def r(2))
  have pd3: "x < length (Map_arcs m3)" if "x \<in> set (Map_pending_arcs m3)" for x
  proof -
    from that have "x \<in> set (Map_pending_arcs m) \<or> x \<in> set (Tag_arcs (Map_tags m ! new_tag))"
      by (simp add: m3_def store_Arc_def r(4))
    then show ?thesis
      using pd Heap_ok_Tag_arcs(1)[OF ok n] len3 by auto
  qed
  have "\<exists>sorted. List__sort (Arc__distance_compare m3) (Map_pending_arcs m3) = Inr sorted"
    by (intro List__sort_ok Arc__distance_compare_ok ok3 pd3)
  then obtain sorted where
    s: "List__sort (Arc__distance_compare m3) (Map_pending_arcs m3) = Inr sorted" by blast
  have at2: "Arc_at m2 arc = Inr (Map_arcs m2 ! arc)"
    using a by (simp add: Arc_at_def r(2))
  have g': "(if fnew then (if tnew then Inl Assert_Failed
                          else Map__update_grow visit m from_tag to_tag arc)
             else (if fnew then Inl Assert_Failed
                   else Map__update_grow visit m to_tag from_tag arc)) = Inr m2"
    using g nb by (auto simp: new_tag_def known_tag_def)
  show ?thesis
    unfolding Map__update_tree_def Let_def g'
    using at2 s by (simp add: m3_def)
qed

lemma Map__update_step_ok:
  assumes ok: "Heap_ok m" and fr: "Frontier_ok visit m" and ne: "Map_pending_arcs m \<noteq> []"
  shows "\<exists>m'. Map__update_step visit m = Inr m'"
proof -
  let ?m = "m\<lparr>Map_pending_arcs := butlast (Map_pending_arcs m)\<rparr>"
  let ?arc = "last (Map_pending_arcs m)"
  from ne have "?arc \<in> set (Map_pending_arcs m)" by simp
  with fr have re: "Arc_reached visit m ?arc" by (simp add: Frontier_ok_def)
  then have a: "?arc < length (Map_arcs m)" by (simp add: Arc_reached_def)
  define a0 where "a0 = Map_arcs m ! ?arc"
  have at: "Arc_at ?m ?arc = Inr a0"
    using a by (simp add: Arc_at_def a0_def)
  from Heap_ok_Arc_ok[OF ok a] obtain f t where
    ft: "Arc_from_tag a0 = Some f" "Arc_to_tag a0 = Some t"
    "f < length (Map_tags m)" "t < length (Map_tags m)"
    unfolding a0_def by (rule Arc_ok_D)
  define m1 where "m1 = store_Arc ?m ?arc (a0\<lparr>Arc_visit := visit\<rparr>)"
  have m1: "Map_tags m1 = Map_tags m" "length (Map_arcs m1) = length (Map_arcs m)"
    "Map_pending_arcs m1 = butlast (Map_pending_arcs m)"
    by (simp_all add: m1_def store_Arc_def)
  have ok1: "Heap_ok m1"
    using ok
    by (rule Heap_ok_same_shape) (simp_all add: m1_def store_Arc_def map_update_same a0_def)
  have pd1: "\<forall>x \<in> set (Map_pending_arcs m1). x < length (Map_arcs m1)"
    using fr by (auto simp: m1 Frontier_ok_def Arc_reached_def dest: in_set_butlastD)
  have vis: "Tag_visit (Map_tags m ! f) = visit \<or> Tag_visit (Map_tags m ! t) = visit"
    using re ft by (auto simp: Arc_reached_def Tag_visited_def a0_def)
  have ptr: "Tag_ptr m1 (Arc_from_tag a0) = Inr f" "Tag_ptr m1 (Arc_to_tag a0) = Inr t"
    using ft by (simp_all add: Tag_ptr_def m1)
  have arc_eq: "Map__update_arc visit ?m ?arc a0 =
      (if Tag_visit (Map_tags m1 ! f) \<noteq> visit \<or> Tag_visit (Map_tags m1 ! t) \<noteq> visit
       then Map__update_tree visit m1 f t ?arc
              (Tag_visit (Map_tags m1 ! f) \<noteq> visit) (Tag_visit (Map_tags m1 ! t) \<noteq> visit)
       else Inr (store_Arc m1 ?arc ((Map_arcs m1 ! ?arc)\<lparr>Arc_in_tree := False\<rparr>)))"
    unfolding Map__update_arc_def Let_def m1_def[symmetric]
    by (simp only: ptr bindE_simps)
  have "\<exists>m'. Map__update_arc visit ?m ?arc a0 = Inr m'"
  proof (cases "Tag_visit (Map_tags m1 ! f) \<noteq> visit \<or> Tag_visit (Map_tags m1 ! t) \<noteq> visit")
    case False
    then show ?thesis
      unfolding arc_eq by simp
  next
    case True
    have "\<exists>m'. Map__update_tree visit m1 f t ?arc
            (Tag_visit (Map_tags m1 ! f) \<noteq> visit) (Tag_visit (Map_tags m1 ! t) \<noteq> visit) = Inr m'"
      using ok1 ft(3,4) a vis pd1
      by (intro Map__update_tree_ok) (auto simp: m1)
    with True show ?thesis
      unfolding arc_eq by simp
  qed
  with at show ?thesis
    unfolding Map__update_step_def Let_def by auto
qed


lemma Map__update_loop_ok:
  assumes "Heap_ok m" "Frontier_ok visit m"
  shows "\<exists>m'. Map__update_loop visit m = Inr m' \<and> Loop_rel visit m m' \<and> Map_pending_arcs m' = []"
  using assms
proof (induction visit m rule: Map__update_loop.induct)
  case (1 visit m)
  show ?case
  proof (cases "Map_pending_arcs m = []")
    case True
    then show ?thesis by (simp add: Loop_rel_refl)
  next
    case False
    from Map__update_step_ok[OF "1.prems" False]
    obtain m1 where s: "Map__update_step visit m = Inr m1" by blast
    note rel = Map__update_step_rel[OF s]
    have ok1: "Heap_ok m1" using "1.prems"(1) rel by (rule Loop_rel_Heap_ok)
    have fr1: "Frontier_ok visit m1" using "1.prems" rel by (rule Loop_rel_Frontier_ok)
    from "1.IH"[OF False s ok1 fr1] obtain m' where
      m': "Map__update_loop visit m1 = Inr m'" "Loop_rel visit m1 m'" "Map_pending_arcs m' = []"
      by blast
    from rel m'(2) have "Loop_rel visit m m'" by (rule Loop_rel_trans)
    with False s m' show ?thesis by simp
  qed
qed

lemma Map__update_reaches_inv:
  assumes "Map__update_reaches visit m0 m1" "Heap_ok m0" "Frontier_ok visit m0"
  shows "Heap_ok m1 \<and> Frontier_ok visit m1 \<and> Loop_rel visit m0 m1"
  using assms
proof (induction rule: Map__update_reaches.induct)
  case start
  then show ?case by (simp add: Loop_rel_refl)
next
  case (step m m')
  then have i: "Heap_ok m" "Frontier_ok visit m" "Loop_rel visit m0 m" by simp_all
  note rel = Map__update_step_rel[OF step.hyps(3)]
  from i(1) rel have "Heap_ok m'" by (rule Loop_rel_Heap_ok)
  moreover from i(1,2) rel have "Frontier_ok visit m'" by (rule Loop_rel_Frontier_ok)
  moreover from i(3) rel have "Loop_rel visit m0 m'" by (rule Loop_rel_trans)
  ultimately show ?case by simp
qed

lemma Tag__compare_at_visit [simp]:
  "Tag__compare_at (m\<lparr>Map_visit := v\<rparr>) = Tag__compare_at m"
  by (intro ext) (simp add: Tag__compare_at_def Tag_at_def)

lemma Map__update_origin_result:
  assumes "Map__update_origin visit m origin_tag = Inr m0"
  shows "origin_tag < length (Map_tags m) \<and>
     Map_tags m0 = (Map_tags m)[origin_tag :=
        (Map_tags m ! origin_tag)\<lparr>Tag_visit := visit, Tag_hop_count := 0\<rparr>] \<and>
     Map_arcs m0 = Map_arcs m \<and> Map_visit m0 = Map_visit m \<and>
     Map_all_tags m0 = Map_all_tags m \<and>
     set (Map_pending_arcs m0) =
       set (Map_pending_arcs m) \<union> set (Tag_arcs (Map_tags m ! origin_tag))"
proof -
  from assms[unfolded Map__update_origin_def Let_def]
  obtain origin where o: "Tag_at m origin_tag = Inr origin" by (rule bindE_InrE)
  then have ol: "origin_tag < length (Map_tags m)" "origin = Map_tags m ! origin_tag"
    by (auto dest!: Tag_at_InrD)
  define m4 where "m4 = m\<lparr>Map_tags := (Map_tags m)[origin_tag :=
        (Map_tags m ! origin_tag)\<lparr>Tag_visit := visit, Tag_hop_count := 0\<rparr>],
      Map_pending_arcs := Map_pending_arcs m @ Tag_arcs (Map_tags m ! origin_tag)\<rparr>"
  from assms o ol have "bindE (List__sort (Arc__distance_compare m4) (Map_pending_arcs m4))
            (\<lambda>sorted. Inr (m4\<lparr>Map_pending_arcs := sorted\<rparr>)) = Inr m0"
    by (simp add: Map__update_origin_def Let_def store_Tag_def m4_def)
  then obtain sorted where s: "List__sort (Arc__distance_compare m4) (Map_pending_arcs m4) = Inr sorted"
    and m0: "m0 = m4\<lparr>Map_pending_arcs := sorted\<rparr>"
    by (elim bindE_InrE) simp
  from List__sort_set[OF s] show ?thesis
    using ol by (simp add: m0 m4_def)
qed

lemma Map__update_init_result:
  assumes "Map__update_init m = Inr m0"
  shows "\<exists>origin_tag rest.
     List__sort (Tag__compare_at m) (Map_all_tags m) = Inr (origin_tag # rest) \<and>
     origin_tag < length (Map_tags m) \<and>
     Map_all_tags m0 = origin_tag # rest \<and>
     Map_tags m0 = (Map_tags m)[origin_tag :=
        (Map_tags m ! origin_tag)\<lparr>Tag_visit := Map_visit m + 1, Tag_hop_count := 0\<rparr>] \<and>
     Map_arcs m0 = Map_arcs m \<and> Map_visit m0 = Map_visit m + 1 \<and>
     set (Map_pending_arcs m0) =
       set (Map_pending_arcs m) \<union> set (Tag_arcs (Map_tags m ! origin_tag))"
proof -
  from assms[unfolded Map__update_init_def Let_def]
  obtain all_tags where srt: "List__sort (Tag__compare_at m) (Map_all_tags m) = Inr all_tags"
    and r: "(case all_tags of [] \<Rightarrow> Inl Out_Of_Bounds
       | origin_tag # rest \<Rightarrow>
           Map__update_origin (Map_visit m + 1)
             (m\<lparr>Map_visit := Map_visit m + 1, Map_all_tags := all_tags\<rparr>) origin_tag) = Inr m0"
    by (elim bindE_InrE) simp
  from r obtain origin_tag rest where at: "all_tags = origin_tag # rest"
    by (cases all_tags) simp_all
  from r at have "Map__update_origin (Map_visit m + 1)
             (m\<lparr>Map_visit := Map_visit m + 1, Map_all_tags := all_tags\<rparr>) origin_tag = Inr m0"
    by simp
  from Map__update_origin_result[OF this] srt at show ?thesis
    by simp
qed


lemma Map__update_origin_ok:
  assumes ok: "Heap_ok m" and o: "origin_tag < length (Map_tags m)"
    and pd: "\<forall>x \<in> set (Map_pending_arcs m). x < length (Map_arcs m)"
  shows "\<exists>m0. Map__update_origin visit m origin_tag = Inr m0"
proof -
  define m4 where "m4 = m\<lparr>Map_tags := (Map_tags m)[origin_tag :=
        (Map_tags m ! origin_tag)\<lparr>Tag_visit := visit, Tag_hop_count := 0\<rparr>],
      Map_pending_arcs := Map_pending_arcs m @ Tag_arcs (Map_tags m ! origin_tag)\<rparr>"
  have ok4: "Heap_ok m4"
    using ok by (rule Heap_ok_same_shape) (simp_all add: m4_def map_update_same)
  have pd4: "x < length (Map_arcs m4)" if "x \<in> set (Map_pending_arcs m4)" for x
    using that pd Heap_ok_Tag_arcs(1)[OF ok o] by (auto simp: m4_def)
  have "\<exists>sorted. List__sort (Arc__distance_compare m4) (Map_pending_arcs m4) = Inr sorted"
    by (intro List__sort_ok Arc__distance_compare_ok ok4 pd4)
  then obtain sorted where
    "List__sort (Arc__distance_compare m4) (Map_pending_arcs m4) = Inr sorted" by blast
  then show ?thesis
    using o by (simp add: Map__update_origin_def Let_def Tag_at_def store_Tag_def m4_def)
qed

lemma Map__update_init_ok:
  assumes wf: "Map_wf m" and ne: "Map_all_tags m \<noteq> []"
  shows "\<exists>m0. Map__update_init m = Inr m0 \<and> Heap_ok m0 \<and> Frontier_ok (Map_visit m0) m0"
proof -
  from wf have ok: "Heap_ok m" and tv: "\<forall>p \<in> set (Map_all_tags m). p < length (Map_tags m)"
    and pe: "Map_pending_arcs m = []"
    by (simp_all add: Map_wf_def)
  have "\<exists>ys. List__sort (Tag__compare_at m) (Map_all_tags m) = Inr ys"
    using tv by (intro List__sort_ok Tag__compare_at_ok) auto
  then obtain ys where ys: "List__sort (Tag__compare_at m) (Map_all_tags m) = Inr ys" by blast
  note ss = List__sort_set[OF ys]
  with ne obtain origin_tag rest where yc: "ys = origin_tag # rest"
    by (cases ys) auto
  with ss tv have o: "origin_tag < length (Map_tags m)" by auto
  define m2 where "m2 = m\<lparr>Map_visit := Map_visit m + 1, Map_all_tags := ys\<rparr>"
  have "\<exists>m0. Map__update_origin (Map_visit m + 1) m2 origin_tag = Inr m0"
  proof (rule Map__update_origin_ok)
    show "Heap_ok m2"
      using ok by (rule Heap_ok_same_shape) (simp_all add: m2_def)
    show "origin_tag < length (Map_tags m2)" using o by (simp add: m2_def)
    show "\<forall>x \<in> set (Map_pending_arcs m2). x < length (Map_arcs m2)"
      using pe by (simp add: m2_def)
  qed
  then obtain m0 where m0: "Map__update_origin (Map_visit m + 1) m2 origin_tag = Inr m0"
    by blast
  have init: "Map__update_init m = Inr m0"
    using ys yc m0 by (simp add: Map__update_init_def Let_def m2_def)
  from Map__update_origin_result[OF m0] have
    r: "Map_tags m0 = (Map_tags m)[origin_tag :=
          (Map_tags m ! origin_tag)\<lparr>Tag_visit := Map_visit m + 1, Tag_hop_count := 0\<rparr>]"
      "Map_arcs m0 = Map_arcs m" "Map_visit m0 = Map_visit m + 1"
      "set (Map_pending_arcs m0) = set (Tag_arcs (Map_tags m ! origin_tag))"
    using pe by (simp_all add: m2_def)
  have ok0: "Heap_ok m0"
    using ok by (rule Heap_ok_same_shape) (simp_all add: r map_update_same)
  have "Frontier_ok (Map_visit m0) m0"
    unfolding Frontier_ok_def
  proof
    fix arc assume "arc \<in> set (Map_pending_arcs m0)"
    with r(4) have a: "arc \<in> set (Tag_arcs (Map_tags m ! origin_tag))" by simp
    note h = Heap_ok_Tag_arcs[OF ok o a]
    have "Tag_visited (Map_visit m0) m0 (Some origin_tag)"
      using o by (simp add: Tag_visited_def r)
    with h show "Arc_reached (Map_visit m0) m0 arc"
      by (auto simp: Arc_reached_def r(2))
  qed
  with init ok0 show ?thesis by blast
qed

lemma example_map_12_init: "Map__update_init example_map_12 = Inr example_map_12_frontier"
  by (simp add: eval_defs example_map_12_def example_map_12_frontier_def)

section \<open>Pose propagation\<close>

text \<open>
  Claim C9 (Idempotence of update). When \<open>Map__update\<close> returns, the map it returns has
  \<open>is_changed\<close> false, and a second \<open>Map__update\<close> on it, with nothing in between,
  returns that same map: no Tag, no Arc and no other field of the map is changed.
\<close>

theorem Map__update_twice:
  assumes "Map__update m = Inr m'"
  shows "\<not> Map_is_changed m' \<and> Map__update m' = Inr m'"
proof (cases "Map_is_changed m")
  case True
  with assms obtain m4 m5 where "m' = m5\<lparr>Map_is_changed := False\<rparr>"
    unfolding Map__update_def by (auto elim!: bindE_InrE)
  then show ?thesis by (simp add: Map__update_def)
next
  case False
  with assms show ?thesis by (simp add: Map__update_def)
qed

theorem Map__update_twice_witness:
  "Map__update example_map_12 = Inr example_map_12_updated \<and>
   \<not> Map_is_changed example_map_12_updated \<and>
   Map__update example_map_12_updated = Inr example_map_12_updated"
  using Map__update_twice[OF example_map_12_update] example_map_12_update by simp

section \<open>Reading Arcs\<close>

text \<open>
  Claim C6 (Loader does not re-canonicalize), as amended. \<open>Arc__read\<close> converts both
  twists from degrees to radians and hands them to \<open>Arc__create\<close>, which does apply the
  canonical-order swap: on a map whose Tag table is consistent, the Arc read from an
  element with \<open>From_Tag_Id > To_Tag_Id\<close> has the marker \<open>To_Tag_Id\<close> as its
  \<open>from_tag\<close>, the converted \<open>To_Twist\<close> as its \<open>from_twist\<close> and the converted
  \<open>From_Twist\<close> as its \<open>to_twist\<close>; an element with \<open>From_Tag_Id \<le> To_Tag_Id\<close> is
  stored as it is written.
\<close>

theorem Arc__read_canonical:
  assumes "Tags_table_ok m"
  shows "\<exists>m' arc a. Arc__read m e = Inr (m', arc) \<and> Arc_at m' arc = Inr a \<and>
     Arc_ids m' a =
       (if From_Tag_Id e > To_Tag_Id e then (Some (To_Tag_Id e), Some (From_Tag_Id e))
        else (Some (From_Tag_Id e), Some (To_Tag_Id e))) \<and>
     Arc_from_twist a =
       (if From_Tag_Id e > To_Tag_Id e then To_Twist e else From_Twist e)
         * (3.14159265358979323846264 / 180) \<and>
     Arc_to_twist a =
       (if From_Tag_Id e > To_Tag_Id e then From_Twist e else To_Twist e)
         * (3.14159265358979323846264 / 180)"
proof -
  obtain m1 f where l1: "Map__tag_lookup m (From_Tag_Id e) = (m1, f)"
    by (cases "Map__tag_lookup m (From_Tag_Id e)")
  obtain m2 t where l2: "Map__tag_lookup m1 (To_Tag_Id e) = (m2, t)"
    by (cases "Map__tag_lookup m1 (To_Tag_Id e)")
  note A = Map__tag_lookup_ok[OF assms l1]
  note B = Map__tag_lookup_ok[OF A(3) l2]
  have f: "f < length (Map_tags m2)" "Tag_id (Map_tags m2 ! f) = From_Tag_Id e"
    using A(1,2) B(4) B(5)[of f] by auto
  have t: "t < length (Map_tags m2)" "Tag_id (Map_tags m2 ! t) = To_Tag_Id e"
    using B(1,2) by auto
  define k :: real where "k = 3.14159265358979323846264 / 180"
  define sw where "sw = (From_Tag_Id e > To_Tag_Id e)"
  define f' where "f' = (if sw then t else f)"
  define t' where "t' = (if sw then f else t)"
  define ft where "ft = (if sw then To_Twist e else From_Twist e) * k"
  define tt where "tt = (if sw then From_Twist e else To_Twist e) * k"
  define m3 where "m3 = fst (Arc__create_load m2 f' ft (Distance e) t' tt (Goodness e))"
  define arc where "arc = length (Map_arcs m2)"
  define new where "new = Arc__new\<lparr>Arc_distance := Distance e, Arc_from_tag := Some f',
     Arc_from_twist := ft, Arc_goodness := Goodness e, Arc_to_tag := Some t', Arc_to_twist := tt\<rparr>"
  define m' where "m' = store_Arc m3 arc (new\<lparr>Arc_in_tree := In_Tree e\<rparr>)"
  have c: "Arc__create m2 f (From_Twist e * k) (Distance e) t (To_Twist e * k) (Goodness e)
        = Inr (m3, arc)"
    using f t
    by (simp add: Arc__create_eq sw_def f'_def t'_def ft_def tt_def m3_def arc_def
        prod_eq_iff Arc__create_load_snd)
  have arcs3: "Map_arcs m3 = Map_arcs m2 @ [new]"
    by (simp add: m3_def new_def Arc__create_load_arcs)
  have at3: "Arc_at m3 arc = Inr new"
    by (simp add: Arc_at_def arcs3 arc_def)
  have r: "Arc__read m e = Inr (m', arc)"
    using l1 l2 c at3 by (simp add: Arc__read_def Let_def k_def m'_def)
  have at': "Arc_at m' arc = Inr (new\<lparr>Arc_in_tree := In_Tree e\<rparr>)"
    by (simp add: Arc_at_def m'_def store_Arc_def arcs3 arc_def)
  have len': "length (Map_tags m') = length (Map_tags m2)"
    by (simp add: m'_def store_Arc_def m3_def)
  have id': "\<And>p. p < length (Map_tags m2) \<Longrightarrow> Tag_id (Map_tags m' ! p) = Tag_id (Map_tags m2 ! p)"
    by (simp add: m'_def store_Arc_def m3_def)
  have f't': "f' < length (Map_tags m2)" "t' < length (Map_tags m2)"
    using f t by (auto simp: f'_def t'_def)
  have "Arc_ids m' (new\<lparr>Arc_in_tree := In_Tree e\<rparr>)
        = (Some (Tag_id (Map_tags m' ! f')), Some (Tag_id (Map_tags m' ! t')))"
    using f't' len' by (intro Arc_ids_eq) (simp_all add: new_def)
  also have "\<dots> = (if sw then (Some (To_Tag_Id e), Some (From_Tag_Id e))
        else (Some (From_Tag_Id e), Some (To_Tag_Id e)))"
    using f't' f t by (simp add: id') (simp add: f'_def t'_def)
  finally have ids: "Arc_ids m' (new\<lparr>Arc_in_tree := In_Tree e\<rparr>)
        = (if sw then (Some (To_Tag_Id e), Some (From_Tag_Id e))
        else (Some (From_Tag_Id e), Some (To_Tag_Id e)))" .
  have tw: "Arc_from_twist (new\<lparr>Arc_in_tree := In_Tree e\<rparr>) = ft"
    "Arc_to_twist (new\<lparr>Arc_in_tree := In_Tree e\<rparr>) = tt"
    by (simp_all add: new_def)
  show ?thesis
    using r at' ids tw unfolding sw_def ft_def tt_def k_def by blast
qed

theorem Arc__read_canonical_witness:
  "Tags_table_ok Map__new \<and>
   (\<exists>m' arc a. Arc__read Map__new example_element_21 = Inr (m', arc) \<and>
      Arc_at m' arc = Inr a \<and> Arc_ids m' a = (Some 1, Some 2) \<and>
      Arc_from_twist a = 0 \<and> Arc_to_twist a = 90 * (3.14159265358979323846264 / 180))"
proof -
  have h: "Tags_table_ok Map__new"
    by (simp add: Tags_table_ok_def Map__new_def)
  from Arc__read_canonical[OF h, of example_element_21] h show ?thesis
    by (simp add: example_element_21_def)
qed

text \<open>
  The claim as it was stated fails on the element \<open><Arc From_Tag_Id="2"
  From_Twist="90" Distance="2" To_Tag_Id="1" To_Twist="0" .../>\<close>: the Arc that is
  stored has marker 1 as its \<open>from_tag\<close> and \<open>from_twist = 0\<close>, which is the converted
  \<open>To_Twist\<close> and not the converted \<open>From_Twist\<close>.
\<close>

theorem Arc__read_swaps_counterexample:
  "Arc__read Map__new example_element_21 = Inr (example_map_21, 0) \<and>
   Arc_from_twist (Map_arcs example_map_21 ! 0)
     \<noteq> From_Twist example_element_21 * (3.14159265358979323846264 / 180) \<and>
   Arc_from_twist (Map_arcs example_map_21 ! 0)
     = To_Twist example_element_21 * (3.14159265358979323846264 / 180) \<and>
   Arc_ids example_map_21 (Map_arcs example_map_21 ! 0) = (Some 1, Some 2)"
  by (simp add: eval_defs example_element_21_def example_map_21_def Arc_ids_def Tag_id_ref_def)

section \<open>Canonical order of the endpoints\<close>

text \<open>
  Claim C7 (Canonical ordering invariant). The claim: every Arc that is created has
  \<open>from_tag.id < to_tag.id\<close>. \<open>Arc__create\<close> swaps only when \<open>from.id > to.id\<close> and has
  no case for equal ids: reading the element \<open><Arc From_Tag_Id="3" ... To_Tag_Id="3"
  .../>\<close> creates an Arc from marker 3 to marker 3, and an ingest whose two detections
  carry the same marker creates such an Arc too and then fails the assertion
  \<open>from_tag->id < to_tag->id\<close> of \<open>Arc__update\<close>.
\<close>

theorem Arc__create_equal_ids:
  "Arc__read Map__new example_element_33 = Inr (example_map_33, 0) \<and>
   Arc_ids example_map_33 (Map_arcs example_map_33 ! 0) = (Some 3, Some 3) \<and>
   Map__arc_update (fst (Map__tag_lookup Map__new 3))
     (example_camera_centre 0) (example_camera_centre 0) example_image = Inl Assert_Failed"
  by (simp add: eval_defs example_element_33_def example_map_33_def Arc_ids_def Tag_id_ref_def
      Map__arc_update_def Map__arc_lookup_def Arc__update_def example_camera_centre_def
      example_image_def)

section \<open>The Edge Index\<close>

text \<open>
  Claim C4 (Edge deduplication). The claim: in every state reached by ingests and
  loads there is at most one Arc per unordered pair of ids, and a lookup of a pair that
  is present returns the existing Arc. \<open>Arc__read\<close> creates its Arc with \<open>Arc__create\<close>
  and does not insert it into \<open>arcs_table\<close>, which is the only place where
  \<open>Map__arc_lookup\<close> looks: after the element for the markers 1 and 2 is read, the
  lookup of that pair does not find the Arc and creates a second one over the same two
  ids.
\<close>

theorem Arc__read_not_in_arcs_table:
  "Arc__read Map__new example_element_12 = Inr (example_map_12, 0) \<and>
   Map_arcs_table example_map_12 = [] \<and>
   Map__arc_lookup example_map_12 0 1 = Inr (example_map_12_twice, 1) \<and>
   Map_all_arcs example_map_12_twice = [0, 1] \<and>
   Arc_ids example_map_12_twice (Map_arcs example_map_12_twice ! 0) = (Some 1, Some 2) \<and>
   Arc_ids example_map_12_twice (Map_arcs example_map_12_twice ! 1) = (Some 1, Some 2)"
  by (simp add: eval_defs ingest_defs example_element_12_def example_map_12_def
      example_map_12_twice_def Arc_ids_def Tag_id_ref_def)

section \<open>Ingest\<close>

text \<open>
  Claim C3 (Dirty-flag contract of ingest). The claim: when \<open>Map__arc_update\<close> finds a
  strictly better goodness for an existing pair it updates the Arc, sets \<open>is_changed\<close>
  and returns 1. The source sets \<open>is_changed\<close> in \<open>Map__arc_append\<close> and in
  \<open>Map__tag_lookup\<close> only, that is, when an Arc or a Tag is created. On
  \<open>example_map_measured\<close>, which an ingest and a \<open>Map__update\<close> leave behind, a better
  measurement of the existing pair is stored and 1 is returned, but \<open>is_changed\<close>
  stays false: the following \<open>Map__update\<close> does nothing, and marker 2 keeps the
  position it had for the distance 20 while the Arc now says 2.
\<close>

theorem Map__arc_update_keeps_is_changed:
  "bindE (Map__arc_update example_map_tags (example_camera_centre 0) (example_camera_at 1 20)
            example_image) (\<lambda>r. Map__update (fst r)) = Inr example_map_measured \<and>
   Map__arc_update example_map_measured (example_camera_centre 0) (example_camera_at 1 2)
     example_image = Inr (example_map_improved, 1) \<and>
   Arc_goodness (Map_arcs example_map_measured ! 0) = 20 \<and>
   Arc_goodness (Map_arcs example_map_improved ! 0) = 2 \<and>
   Arc_distance (Map_arcs example_map_improved ! 0) = 2 \<and>
   Map_is_changed example_map_improved = False \<and>
   Map__update example_map_improved = Inr example_map_improved \<and>
   Tag_x (Map_tags example_map_improved ! 1) = 20"
  by (simp add: eval_defs ingest_defs example_map_tags_def example_map_measured_def
      example_map_improved_def)

section \<open>Frontier safety\<close>

text \<open>
  Claim C8 (Frontier safety). On a well-formed map with at least one marker,
  \<open>Map__update\<close> reaches the head of its loop, and whenever the loop is at its head
  with a non-empty \<open>pending_arcs\<close>, the Arc it is about to pop has at least one
  endpoint that is already visited in this cycle, and the iteration completes: the
  assertion of the tree-growth branch does not fail and no pointer is bad. So
  \<open>Map__update\<close> returns.
\<close>

theorem Map__update_frontier_safe:
  assumes "Map_wf m" "Map_all_tags m \<noteq> []"
  shows "\<exists>m0. Map__update_init m = Inr m0 \<and>
     (\<forall>m1. Map__update_reaches (Map_visit m0) m0 m1 \<and> Map_pending_arcs m1 \<noteq> [] \<longrightarrow>
        Arc_reached (Map_visit m0) m1 (last (Map_pending_arcs m1)) \<and>
        (\<exists>m2. Map__update_step (Map_visit m0) m1 = Inr m2)) \<and>
     (\<exists>m'. Map__update m = Inr m')"
proof -
  from Map__update_init_ok[OF assms] obtain m0 where
    i: "Map__update_init m = Inr m0" "Heap_ok m0" "Frontier_ok (Map_visit m0) m0" by blast
  have loop: "Arc_reached (Map_visit m0) m1 (last (Map_pending_arcs m1)) \<and>
        (\<exists>m2. Map__update_step (Map_visit m0) m1 = Inr m2)"
    if "Map__update_reaches (Map_visit m0) m0 m1 \<and> Map_pending_arcs m1 \<noteq> []" for m1
  proof -
    from that Map__update_reaches_inv[OF _ i(2,3)] have
      inv: "Heap_ok m1" "Frontier_ok (Map_visit m0) m1" and ne: "Map_pending_arcs m1 \<noteq> []"
      by auto
    from ne have "last (Map_pending_arcs m1) \<in> set (Map_pending_arcs m1)" by simp
    with inv(2) have "Arc_reached (Map_visit m0) m1 (last (Map_pending_arcs m1))"
      by (simp add: Frontier_ok_def)
    with Map__update_step_ok[OF inv ne] show ?thesis by simp
  qed
  from Map__update_loop_ok[OF i(2,3)] obtain m5 where
    "Map__update_loop (Map_visit m0) m0 = Inr m5" by blast
  with i(1) have "\<exists>m'. Map__update m = Inr m'"
    by (simp add: Map__update_def)
  with i(1) loop show ?thesis by blast
qed

theorem Map__update_frontier_safe_witness:
  "Map_wf example_map_12 \<and> Map_all_tags example_map_12 \<noteq> [] \<and>
   Map__update_init example_map_12 = Inr example_map_12_frontier \<and>
   Map_pending_arcs example_map_12_frontier = [0] \<and>
   Arc_reached 1 example_map_12_frontier 0 \<and>
   (\<exists>m2. Map__update_step 1 example_map_12_frontier = Inr m2) \<and>
   (\<exists>m'. Map__update example_map_12 = Inr m')"
proof -
  have ne: "Map_all_tags example_map_12 \<noteq> []"
    by (simp add: example_map_12_def)
  from Map__update_frontier_safe[OF example_map_12_wf ne] obtain m0 where
    m0: "Map__update_init example_map_12 = Inr m0"
    and l: "\<And>m1. Map__update_reaches (Map_visit m0) m0 m1 \<and> Map_pending_arcs m1 \<noteq> [] \<Longrightarrow>
        Arc_reached (Map_visit m0) m1 (last (Map_pending_arcs m1)) \<and>
        (\<exists>m2. Map__update_step (Map_visit m0) m1 = Inr m2)"
    and u: "\<exists>m'. Map__update example_map_12 = Inr m'"
    by blast
  from m0 have e: "m0 = example_map_12_frontier"
    by (simp add: example_map_12_init)
  have p: "Map_pending_arcs example_map_12_frontier = [0]"
    "Map_visit example_map_12_frontier = 1"
    by (simp_all add: example_map_12_frontier_def)
  from l[of m0] have "Arc_reached 1 example_map_12_frontier 0 \<and>
      (\<exists>m2. Map__update_step 1 example_map_12_frontier = Inr m2)"
    unfolding e using p by (simp add: Map__update_reaches.start)
  with example_map_12_wf ne example_map_12_init p u show ?thesis by simp
qed

section \<open>The origin\<close>

lemma Unsigned__compare_le: "Unsigned__compare a b \<le> 0 \<longleftrightarrow> a \<le> b"
  by (auto simp: Unsigned__compare_def)

lemma List__insert_sorted:
  assumes "\<And>y. y \<in> set ys \<Longrightarrow> cmp x y = Inr (Unsigned__compare (k x) (k y))"
    and "sorted (map k ys)" and "List__insert cmp x ys = Inr zs"
  shows "sorted (map k zs)"
  using assms
proof (induction ys arbitrary: zs)
  case Nil
  then show ?case by auto
next
  case (Cons y ys)
  have c: "cmp x y = Inr (Unsigned__compare (k x) (k y))" by (rule Cons.prems(1)) simp
  have le: "(Unsigned__compare (k x) (k y) \<le> 0) = (k x \<le> k y)" by (rule Unsigned__compare_le)
  have sy: "sorted (map k ys)" "\<forall>z \<in> set ys. k y \<le> k z"
    using Cons.prems(2) by simp_all
  show ?case
  proof (cases "k x \<le> k y")
    case True
    have zs: "zs = x # y # ys"
      using Cons.prems(3) by (simp add: c le True)
    have "\<forall>z \<in> set ys. k x \<le> k z"
    proof
      fix z assume "z \<in> set ys"
      with sy(2) have "k y \<le> k z" by simp
      with True show "k x \<le> k z" by (rule order_trans)
    qed
    with True sy show ?thesis by (simp add: zs)
  next
    case False
    have "(case List__insert cmp x ys of Inl e \<Rightarrow> Inl e | Inr zs \<Rightarrow> Inr (y # zs)) = Inr zs"
      using Cons.prems(3) by (simp add: c le False)
    then obtain zs' where z: "List__insert cmp x ys = Inr zs'" "zs = y # zs'"
      by (cases "List__insert cmp x ys") auto
    have i: "\<And>z. z \<in> set ys \<Longrightarrow> cmp x z = Inr (Unsigned__compare (k x) (k z))"
      using Cons.prems(1) by simp
    have s': "sorted (map k zs')"
      using i sy(1) z(1) by (rule Cons.IH)
    from List__insert_set[OF z(1)] have e: "set zs' = insert x (set ys)" by simp
    from False have "k y \<le> k x" by simp
    with s' sy(2) show ?thesis by (simp add: z(2) e)
  qed
qed

lemma List__sort_sorted:
  assumes "\<And>x y. x \<in> set xs \<Longrightarrow> y \<in> set xs \<Longrightarrow> cmp x y = Inr (Unsigned__compare (k x) (k y))"
    and "List__sort cmp xs = Inr ys"
  shows "sorted (map k ys)"
  using assms
proof (induction xs arbitrary: ys)
  case Nil
  then show ?case by simp
next
  case (Cons x xs)
  from Cons.prems(2) obtain ys' where y: "List__sort cmp xs = Inr ys'" "List__insert cmp x ys' = Inr ys"
    by (cases "List__sort cmp xs") auto
  have s: "sorted (map k ys')"
    using Cons.prems(1) y(1) by (intro Cons.IH) auto
  from List__sort_set[OF y(1)] have e: "set ys' = set xs" by simp
  have "\<And>z. z \<in> set ys' \<Longrightarrow> cmp x z = Inr (Unsigned__compare (k x) (k z))"
    using Cons.prems(1) e by simp
  then show ?case
    using s y(2) by (rule List__insert_sorted)
qed

lemma Tag__compare_at_eq:
  "p < length (Map_tags m) \<Longrightarrow> q < length (Map_tags m) \<Longrightarrow>
     Tag__compare_at m p q =
       Inr (Unsigned__compare (Tag_id (Map_tags m ! p)) (Tag_id (Map_tags m ! q)))"
  by (simp add: Tag__compare_at_def Tag_at_def Tag__compare_def)

lemma Loop_rel_visited:
  "Loop_rel visit m m' \<Longrightarrow> p < length (Map_tags m) \<Longrightarrow> Tag_visit (Map_tags m ! p) = visit
     \<Longrightarrow> Map_tags m' ! p = Map_tags m ! p"
  by (simp add: Loop_rel_def)

lemma example_map_moved_wf: "Map_wf example_map_moved"
  by (simp add: wf_defs example_map_moved_def example_map_12_def)

lemma example_map_moved_update: "Map__update example_map_moved = Inr example_map_moved_updated"
  by (simp add: eval_defs example_map_moved_def example_map_moved_updated_def
      example_map_12_def example_map_12_updated_def)

text \<open>
  Claim C2 (Origin invariance), as amended. On a well-formed map with at least one
  marker \<open>Map__update\<close> returns, and the marker at the head of the sorted Tag list,
  which has the lowest id, has the same x, y and twist after the call as before it:
  \<open>Map__update\<close> assigns its \<open>visit\<close> and its \<open>hop_count\<close> when the map was changed, and
  never its pose. So the origin is at (0, 0, 0) after the update when it was there
  before, as a marker is that \<open>Tag__create\<close> has made.
\<close>

theorem Map__update_origin_pose:
  assumes wf: "Map_wf m" and ne: "Map_all_tags m \<noteq> []"
  shows "\<exists>m' origin_tag rest.
      Map__update m = Inr m' \<and>
      List__sort (Tag__compare_at m) (Map_all_tags m) = Inr (origin_tag # rest) \<and>
      origin_tag \<in> set (Map_all_tags m) \<and>
      (\<forall>p \<in> set (Map_all_tags m).
         Tag_id (Map_tags m ! origin_tag) \<le> Tag_id (Map_tags m ! p)) \<and>
      Tag_id (Map_tags m' ! origin_tag) = Tag_id (Map_tags m ! origin_tag) \<and>
      Tag_x (Map_tags m' ! origin_tag) = Tag_x (Map_tags m ! origin_tag) \<and>
      Tag_y (Map_tags m' ! origin_tag) = Tag_y (Map_tags m ! origin_tag) \<and>
      Tag_twist (Map_tags m' ! origin_tag) = Tag_twist (Map_tags m ! origin_tag) \<and>
      (Map_is_changed m \<longrightarrow>
         Tag_visit (Map_tags m' ! origin_tag) = Map_visit m + 1 \<and>
         Tag_hop_count (Map_tags m' ! origin_tag) = 0)"
proof -
  from wf have tv: "\<forall>p \<in> set (Map_all_tags m). p < length (Map_tags m)"
    by (simp add: Map_wf_def)
  from Map__update_init_ok[OF wf ne] obtain m0 where
    i: "Map__update_init m = Inr m0" "Heap_ok m0" "Frontier_ok (Map_visit m0) m0" by blast
  from Map__update_init_result[OF i(1)] obtain origin_tag rest where
    o: "List__sort (Tag__compare_at m) (Map_all_tags m) = Inr (origin_tag # rest)"
      "origin_tag < length (Map_tags m)"
      "Map_tags m0 = (Map_tags m)[origin_tag :=
        (Map_tags m ! origin_tag)\<lparr>Tag_visit := Map_visit m + 1, Tag_hop_count := 0\<rparr>]"
      "Map_visit m0 = Map_visit m + 1"
    by blast
  note ss = List__sort_set[OF o(1)]
  have mem: "origin_tag \<in> set (Map_all_tags m)" using ss by auto
  have "\<And>p q. p \<in> set (Map_all_tags m) \<Longrightarrow> q \<in> set (Map_all_tags m) \<Longrightarrow>
      Tag__compare_at m p q =
        Inr (Unsigned__compare (Tag_id (Map_tags m ! p)) (Tag_id (Map_tags m ! q)))"
    using tv by (simp add: Tag__compare_at_eq)
  then have "sorted (map (\<lambda>p. Tag_id (Map_tags m ! p)) (origin_tag # rest))"
    using o(1) by (rule List__sort_sorted)
  then have low: "\<forall>p \<in> set (Map_all_tags m).
         Tag_id (Map_tags m ! origin_tag) \<le> Tag_id (Map_tags m ! p)"
    using ss by auto
  show ?thesis
  proof (cases "Map_is_changed m")
    case False
    then have "Map__update m = Inr m" by (simp add: Map__update_def)
    with o(1) mem low False have "Map__update m = Inr m \<and>
      List__sort (Tag__compare_at m) (Map_all_tags m) = Inr (origin_tag # rest) \<and>
      origin_tag \<in> set (Map_all_tags m) \<and>
      (\<forall>p \<in> set (Map_all_tags m).
         Tag_id (Map_tags m ! origin_tag) \<le> Tag_id (Map_tags m ! p)) \<and>
      Tag_id (Map_tags m ! origin_tag) = Tag_id (Map_tags m ! origin_tag) \<and>
      Tag_x (Map_tags m ! origin_tag) = Tag_x (Map_tags m ! origin_tag) \<and>
      Tag_y (Map_tags m ! origin_tag) = Tag_y (Map_tags m ! origin_tag) \<and>
      Tag_twist (Map_tags m ! origin_tag) = Tag_twist (Map_tags m ! origin_tag) \<and>
      (Map_is_changed m \<longrightarrow>
         Tag_visit (Map_tags m ! origin_tag) = Map_visit m + 1 \<and>
         Tag_hop_count (Map_tags m ! origin_tag) = 0)" by simp
    then show ?thesis by (intro exI)
  next
    case True
    from Map__update_loop_ok[OF i(2,3)] obtain m5 where
      l: "Map__update_loop (Map_visit m0) m0 = Inr m5" "Loop_rel (Map_visit m0) m0 m5" by blast
    have u: "Map__update m = Inr (m5\<lparr>Map_is_changed := False\<rparr>)"
      using True i(1) l(1) by (simp add: Map__update_def)
    have "Map_tags m5 ! origin_tag = Map_tags m0 ! origin_tag"
      using Loop_rel_visited[OF l(2), of origin_tag] o(2) by (simp add: o(3,4))
    then have t: "Map_tags (m5\<lparr>Map_is_changed := False\<rparr>) ! origin_tag =
        (Map_tags m ! origin_tag)\<lparr>Tag_visit := Map_visit m + 1, Tag_hop_count := 0\<rparr>"
      using o(2) by (simp add: o(3))
    have "Map__update m = Inr (m5\<lparr>Map_is_changed := False\<rparr>) \<and>
      List__sort (Tag__compare_at m) (Map_all_tags m) = Inr (origin_tag # rest) \<and>
      origin_tag \<in> set (Map_all_tags m) \<and>
      (\<forall>p \<in> set (Map_all_tags m).
         Tag_id (Map_tags m ! origin_tag) \<le> Tag_id (Map_tags m ! p)) \<and>
      Tag_id (Map_tags (m5\<lparr>Map_is_changed := False\<rparr>) ! origin_tag) = Tag_id (Map_tags m ! origin_tag) \<and>
      Tag_x (Map_tags (m5\<lparr>Map_is_changed := False\<rparr>) ! origin_tag) = Tag_x (Map_tags m ! origin_tag) \<and>
      Tag_y (Map_tags (m5\<lparr>Map_is_changed := False\<rparr>) ! origin_tag) = Tag_y (Map_tags m ! origin_tag) \<and>
      Tag_twist (Map_tags (m5\<lparr>Map_is_changed := False\<rparr>) ! origin_tag) = Tag_twist (Map_tags m ! origin_tag) \<and>
      (Map_is_changed m \<longrightarrow>
         Tag_visit (Map_tags (m5\<lparr>Map_is_changed := False\<rparr>) ! origin_tag) = Map_visit m + 1 \<and>
         Tag_hop_count (Map_tags (m5\<lparr>Map_is_changed := False\<rparr>) ! origin_tag) = 0)"
      unfolding t using u o(1) mem low by simp
    then show ?thesis by (intro exI)
  qed
qed

theorem Map__update_origin_pose_witness:
  "Map_wf example_map_moved \<and> Map_all_tags example_map_moved \<noteq> [] \<and>
   Map__update example_map_moved = Inr example_map_moved_updated \<and>
   Tag_id (Map_tags example_map_moved_updated ! 0) = 1 \<and>
   Tag_x (Map_tags example_map_moved_updated ! 0) = Tag_x (Map_tags example_map_moved ! 0) \<and>
   Tag_y (Map_tags example_map_moved_updated ! 0) = Tag_y (Map_tags example_map_moved ! 0) \<and>
   Tag_twist (Map_tags example_map_moved_updated ! 0) = Tag_twist (Map_tags example_map_moved ! 0)"
proof -
  have ne: "Map_all_tags example_map_moved \<noteq> []"
    by (simp add: example_map_moved_def example_map_12_def)
  have srt: "List__sort (Tag__compare_at example_map_moved) (Map_all_tags example_map_moved)
       = Inr [0, 1]"
    by (simp add: eval_defs example_map_moved_def example_map_12_def)
  from Map__update_origin_pose[OF example_map_moved_wf ne] obtain m' origin_tag rest where
    r: "Map__update example_map_moved = Inr m'"
      "List__sort (Tag__compare_at example_map_moved) (Map_all_tags example_map_moved)
         = Inr (origin_tag # rest)"
      "Tag_id (Map_tags m' ! origin_tag) = Tag_id (Map_tags example_map_moved ! origin_tag)"
      "Tag_x (Map_tags m' ! origin_tag) = Tag_x (Map_tags example_map_moved ! origin_tag)"
      "Tag_y (Map_tags m' ! origin_tag) = Tag_y (Map_tags example_map_moved ! origin_tag)"
      "Tag_twist (Map_tags m' ! origin_tag) = Tag_twist (Map_tags example_map_moved ! origin_tag)"
    by (elim exE conjE) (rule that)
  from r(2) srt have o: "origin_tag = 0" by simp
  from r(1) example_map_moved_update have m': "m' = example_map_moved_updated" by simp
  have "Tag_id (Map_tags example_map_moved ! 0) = 1"
    by (simp add: example_map_moved_def)
  with r(3-6)[unfolded o m'] example_map_moved_wf ne example_map_moved_update
  show ?thesis by simp
qed

text \<open>
  The claim as it was stated fails on \<open>example_map_moved\<close>, whose lowest-id marker 1 is
  recorded at \<open>x = 5\<close>: it is still at \<open>x = 5\<close> after \<open>Map__update\<close>.
\<close>

theorem Map__update_origin_not_reset_counterexample:
  "Map__update example_map_moved = Inr example_map_moved_updated \<and>
   Map_all_tags example_map_moved = [0, 1] \<and>
   Tag_id (Map_tags example_map_moved_updated ! 0) = 1 \<and>
   Tag_id (Map_tags example_map_moved_updated ! 1) = 2 \<and>
   Tag_x (Map_tags example_map_moved_updated ! 0) = 5 \<and>
   Tag_x (Map_tags example_map_moved_updated ! 0) \<noteq> 0"
  by (simp add: eval_defs example_map_moved_def example_map_moved_updated_def
      example_map_12_def example_map_12_updated_def)

end
